theory Spec2Isabelle
  imports Main "HOL-Library.Sublist"
begin

section \<open>User-agent classification (lib/UA.js)\<close>

text \<open>
  A shallow embedding of \<^verbatim>\<open>packages/polyfill-library/lib/UA.js\<close>.

  JavaScript strings are modelled as \<^typ>\<open>string\<close>, a character being a code unit
  from 0 to 255 (ASCII and Latin-1); every string the module inspects by itself (the
  canonical shape, the noise tokens, the table keys) is ASCII.  Version
  components travel through the module as text (regular-expression captures, parser output);
  the numeric constants of the alias table are written as their decimal text, which is what
  string concatenation and \<^verbatim>\<open>Number()\<close> make of them.  The value
  \<^verbatim>\<open>undefined\<close> is \<^term>\<open>None\<close>.
\<close>

subsection \<open>Characters and strings\<close>

definition is_digit :: "char \<Rightarrow> bool" where
  "is_digit c = (let n = (of_char c :: nat) in 48 \<le> n \<and> n \<le> 57)"

text \<open>
  The characters \<^verbatim>\<open>toLowerCase\<close> changes: the letters A to Z and the uppercase
  letters of Latin-1, U+00C0 to U+00DE without the multiplication sign U+00D7.
\<close>

definition is_upper :: "char \<Rightarrow> bool" where
  "is_upper c = (let n = (of_char c :: nat) in
     (65 \<le> n \<and> n \<le> 90) \<or> (192 \<le> n \<and> n \<le> 214) \<or> (216 \<le> n \<and> n \<le> 222))"

text \<open>The class \<^verbatim>\<open>\w\<close>: letters, digits and the underscore.\<close>

definition is_word :: "char \<Rightarrow> bool" where
  "is_word c = (let n = (of_char c :: nat) in
     (48 \<le> n \<and> n \<le> 57) \<or> (65 \<le> n \<and> n \<le> 90) \<or> (97 \<le> n \<and> n \<le> 122) \<or> n = 95)"

definition lower_char :: "char \<Rightarrow> char" where
  "lower_char c = (if is_upper c then char_of ((of_char c :: nat) + 32) else c)"

text \<open>
  \<^verbatim>\<open>String.prototype.toLowerCase\<close>: each of these letters has its lowercase form
  32 code units above it.
\<close>

definition toLowerCase :: "string \<Rightarrow> string" where
  "toLowerCase s = map lower_char s"

text \<open>
  \<^verbatim>\<open>Number(s)\<close> on the strings that reach it here: a run of decimal digits is its
  value, the empty string is 0, and anything else is \<^verbatim>\<open>NaN\<close>, written
  \<^term>\<open>None\<close>.  Numbers are exact integers.
\<close>

definition to_number :: "string \<Rightarrow> int option" where
  "to_number s =
     (if list_all is_digit s
      then Some (foldl (\<lambda>n c. 10 * n + ((of_char c :: int) - 48)) 0 s)
      else None)"

text \<open>\<^verbatim>\<open>s.split('.')\<close>.\<close>

fun split_dot :: "string \<Rightarrow> string list" where
  "split_dot [] = [[]]"
| "split_dot (c # cs) =
     (if c = CHR ''.'' then [] # split_dot cs
      else (case split_dot cs of
              [] \<Rightarrow> [[c]]
            | w # ws \<Rightarrow> (c # w) # ws))"

subsection \<open>Regular expressions of the sanitizer\<close>

text \<open>
  The four noise patterns use literals (some case-insensitive), three character classes
  under \<^verbatim>\<open>+\<close>, sequence and alternation.  \<open>matches r s\<close> lists the rests of
  \<open>s\<close> after each way \<open>r\<close> matches a prefix of it, in the order a backtracking matcher
  tries them (greedy repetition: longest first; alternation: left first).
\<close>

datatype cls = Digit | DigitOrDot | NotCloseBracket

fun in_cls :: "cls \<Rightarrow> char \<Rightarrow> bool" where
  "in_cls Digit c = is_digit c"
| "in_cls DigitOrDot c = (is_digit c \<or> c = CHR ''.'')"
| "in_cls NotCloseBracket c = (c \<noteq> CHR '']'')"

datatype rx = Lit string | LitI string | Plus cls | Seq rx rx | Alt rx rx

fun strip_prefix :: "(char \<Rightarrow> char) \<Rightarrow> string \<Rightarrow> string \<Rightarrow> string option" where
  "strip_prefix f [] s = Some s"
| "strip_prefix f (p # ps) [] = None"
| "strip_prefix f (p # ps) (c # cs) = (if f p = f c then strip_prefix f ps cs else None)"

fun plus_rests :: "cls \<Rightarrow> string \<Rightarrow> string list" where
  "plus_rests k [] = []"
| "plus_rests k (c # cs) = (if in_cls k c then plus_rests k cs @ [cs] else [])"

fun matches :: "rx \<Rightarrow> string \<Rightarrow> string list" where
  "matches (Lit l) s = (case strip_prefix (\<lambda>c. c) l s of None \<Rightarrow> [] | Some r \<Rightarrow> [r])"
| "matches (LitI l) s = (case strip_prefix lower_char l s of None \<Rightarrow> [] | Some r \<Rightarrow> [r])"
| "matches (Plus k) s = plus_rests k s"
| "matches (Seq a b) s = concat (map (matches b) (matches a s))"
| "matches (Alt a b) s = matches a s @ matches b s"

text \<open>
  \<^verbatim>\<open>s.replace(r, '')\<close> for a pattern without the \<^verbatim>\<open>g\<close> flag: the leftmost
  match, the first one the matcher finds there, is cut out; no match leaves \<open>s\<close> as it is.
\<close>

fun remove_first :: "rx \<Rightarrow> string \<Rightarrow> string" where
  "remove_first r [] = (case matches r [] of [] \<Rightarrow> [] | rest # _ \<Rightarrow> rest)"
| "remove_first r (c # cs) =
     (case matches r (c # cs) of
        [] \<Rightarrow> c # remove_first r cs
      | rest # _ \<Rightarrow> rest)"

text \<open>\<^verbatim>\<open>/((CriOS|OPiOS)\/(\d+)\.(\d+)\.(\d+)\.(\d+)|(FxiOS\/(\d+)\.(\d+)))/\<close>\<close>

definition rx_ios :: rx where
  "rx_ios =
     Alt (Seq (Alt (Lit ''CriOS'') (Lit ''OPiOS''))
           (Seq (Lit ''/'')
             (Seq (Plus Digit) (Seq (Lit ''.'')
               (Seq (Plus Digit) (Seq (Lit ''.'')
                 (Seq (Plus Digit) (Seq (Lit ''.'') (Plus Digit)))))))))
         (Seq (Lit ''FxiOS/'') (Seq (Plus Digit) (Seq (Lit ''.'') (Plus Digit))))"

text \<open>\<^verbatim>\<open>/ vivaldi\/[\d\.]+\d+/i\<close>\<close>

definition rx_vivaldi :: rx where
  "rx_vivaldi = Seq (LitI '' vivaldi/'') (Seq (Plus DigitOrDot) (Plus Digit))"

text \<open>\<^verbatim>\<open>/ \[(FB_IAB|FBAN|FBIOS|FB4A)\/[^\]]+\]/i\<close>\<close>

definition rx_facebook :: rx where
  "rx_facebook =
     Seq (Lit '' ['')
       (Seq (Alt (LitI ''FB_IAB'') (Alt (LitI ''FBAN'') (Alt (LitI ''FBIOS'') (LitI ''FB4A''))))
         (Seq (Lit ''/'') (Seq (Plus NotCloseBracket) (Lit '']''))))"

text \<open>\<^verbatim>\<open>/ Electron\/[\d\.]+\d+/i\<close>\<close>

definition rx_electron :: rx where
  "rx_electron = Seq (LitI '' Electron/'') (Seq (Plus DigitOrDot) (Plus Digit))"

text \<open>Lines 216 to 226: the four removals, in this order.\<close>

definition sanitize :: "string \<Rightarrow> string" where
  "sanitize s = remove_first rx_electron (remove_first rx_facebook (remove_first rx_vivaldi (remove_first rx_ios s)))"

subsection \<open>The canonical shape\<close>

text \<open>
  \<^verbatim>\<open>/^(\w+)\/(\d+)(?:\.(\d+)(?:\.(\d+))?)?$/i\<close> (line 203), with its four capture
  groups; an optional group that took no part in the match is \<^verbatim>\<open>undefined\<close>.
  No character of \<^verbatim>\<open>\w\<close> is a slash and no digit is a dot, so each greedy
  run ends at the first character outside its class and the matcher never backtracks.
  The flag \<^verbatim>\<open>i\<close> changes nothing: the classes hold both cases already.
  The two nested optional groups are the functions \<open>opt_minor\<close> and \<open>opt_patch\<close>.
\<close>

type_synonym groups = "string \<times> string \<times> string option \<times> string option"

text \<open>\<^verbatim>\<open>(?:\.(\d+))?$\<close>: the optional patch, then the end of the string.\<close>

definition opt_patch :: "string \<Rightarrow> string option option" where
  "opt_patch r =
     (case r of
        [] \<Rightarrow> Some None
      | e # r1 \<Rightarrow>
          if e \<noteq> CHR ''.'' then None else
          let pa = takeWhile is_digit r1 in
          if pa = [] \<or> dropWhile is_digit r1 \<noteq> [] then None else Some (Some pa))"

text \<open>\<^verbatim>\<open>(?:\.(\d+)(?:\.(\d+))?)?$\<close>: the optional minor with its optional patch.\<close>

definition opt_minor :: "string \<Rightarrow> (string option \<times> string option) option" where
  "opt_minor r =
     (case r of
        [] \<Rightarrow> Some (None, None)
      | d # r1 \<Rightarrow>
          if d \<noteq> CHR ''.'' then None else
          let mi = takeWhile is_digit r1 in
          if mi = [] then None else
          (case opt_patch (dropWhile is_digit r1) of
             None \<Rightarrow> None
           | Some pa \<Rightarrow> Some (Some mi, pa)))"

definition match_shape :: "string \<Rightarrow> groups option" where
  "match_shape s =
     (let name = takeWhile is_word s in
      if name = [] then None else
      case dropWhile is_word s of
        [] \<Rightarrow> None
      | c # r1 \<Rightarrow>
          if c \<noteq> CHR ''/'' then None else
          let ma = takeWhile is_digit r1 in
          if ma = [] then None else
          (case opt_minor (dropWhile is_digit r1) of
             None \<Rightarrow> None
           | Some (mi, pa) \<Rightarrow> Some (name, ma, mi, pa)))"

subsection \<open>The agent record of the parsing library\<close>

record agent =
  family :: string
  major :: string
  minor :: string
  patch :: string

text \<open>
  Modelled from the spec: the constructor \<^verbatim>\<open>useragent.Agent\<close> belongs to the
  external parsing package, which is not among the sources.  The spec's AgentRecord is the
  plain holder of family, major, minor and patch.
\<close>

definition Agent :: "string \<Rightarrow> string \<Rightarrow> string \<Rightarrow> string \<Rightarrow> agent" where
  "Agent f ma mi pa = \<lparr>family = f, major = ma, minor = mi, patch = pa\<rparr>"

text \<open>
  Modelled from the spec: \<^verbatim>\<open>Agent.prototype.toVersion\<close> of the same package,
  the dotted \<^verbatim>\<open>major.minor.patch\<close> string.
\<close>

definition toVersion :: "agent \<Rightarrow> string" where
  "toVersion u = major u @ ''.'' @ minor u @ ''.'' @ patch u"

text \<open>
  \<^verbatim>\<open>(x || 0)\<close> on a version component: \<^verbatim>\<open>undefined\<close>, the empty
  string and the number 0 all give 0; every other text is kept.
\<close>

definition or0 :: "string option \<Rightarrow> string" where
  "or0 x = (case x of None \<Rightarrow> ''0'' | Some s \<Rightarrow> if s = [] then ''0'' else s)"

text \<open>Line 208: the record built from a shape match or from a cached tuple.\<close>

definition agent_of_groups :: "groups \<Rightarrow> agent" where
  "agent_of_groups n = (case n of (f, ma, mi, pa) \<Rightarrow> Agent f ma (or0 mi) (or0 pa))"

subsection \<open>The result cache\<close>

text \<open>
  Modelled from the spec: the package \<^verbatim>\<open>lru-cache\<close> is not among the sources.
  A bounded least-recently-used cache of capacity 5000: the list holds the entries, the most
  recently used first; a hit moves its entry to the front, a store puts the entry at the
  front and drops what no longer fits.  The stored value is the tuple of line 294
  (its first slot, the empty string, is left out).
\<close>

type_synonym lru = "(string \<times> groups) list"

definition cache_max :: nat where
  "cache_max = 5000"

definition cache_get :: "lru \<Rightarrow> string \<Rightarrow> groups option \<times> lru" where
  "cache_get c k =
     (case map_of c k of
        None \<Rightarrow> (None, c)
      | Some v \<Rightarrow> (Some v, (k, v) # filter (\<lambda>e. fst e \<noteq> k) c))"

definition cache_set :: "lru \<Rightarrow> string \<Rightarrow> groups \<Rightarrow> lru" where
  "cache_set c k v = take cache_max ((k, v) # filter (\<lambda>e. fst e \<noteq> k) c)"

subsection \<open>The tables\<close>

definition MAX_UA_LEN :: nat where
  "MAX_UA_LEN = 300"

definition baseLineVersions_table :: "(string \<times> string) list" where
  "baseLineVersions_table =
    [(''ie'', ''>=7''),
     (''ie_mob'', ''>=8''),
     (''chrome'', ''*''),
     (''safari'', ''>=4''),
     (''ios_saf'', ''>=4''),
     (''ios_chr'', ''>=4''),
     (''firefox'', ''>=3.6''),
     (''firefox_mob'', ''>=4''),
     (''android'', ''>=3''),
     (''opera'', ''>=11''),
     (''op_mob'', ''>=10''),
     (''op_mini'', ''>=5''),
     (''bb'', ''>=6''),
     (''samsung_mob'', ''>=4'')]"

text \<open>
  \<^verbatim>\<open>baseLineVersions\<close> is an object literal, so it inherits the properties of
  \<^verbatim>\<open>Object.prototype\<close>.  A read \<^verbatim>\<open>baseLineVersions[k]\<close> gives the range
  of an own key, the inherited member for one of the inherited names (the function
  \<^verbatim>\<open>Object\<close> for \<^verbatim>\<open>constructor\<close>), and \<^verbatim>\<open>undefined\<close>
  otherwise; \<^verbatim>\<open>k in baseLineVersions\<close> is true for own and inherited names;
  \<^verbatim>\<open>Object.keys(baseLineVersions)\<close> lists the own keys only.
\<close>

datatype jsval = JString string | JUndefined | JInherited string

definition object_prototype_names :: "string list" where
  "object_prototype_names =
    [''constructor'', ''__defineGetter__'', ''__defineSetter__'', ''hasOwnProperty'',
     ''__lookupGetter__'', ''__lookupSetter__'', ''isPrototypeOf'', ''propertyIsEnumerable'',
     ''toString'', ''valueOf'', ''__proto__'', ''toLocaleString'']"

text \<open>The entry of the table under an own key.\<close>

definition baseline_entry :: "string \<Rightarrow> string option" where
  "baseline_entry k = map_of baseLineVersions_table k"

definition baseLineVersions_keys :: "string list" where
  "baseLineVersions_keys = map fst baseLineVersions_table"

definition baseLineVersions :: "string \<Rightarrow> jsval" where
  "baseLineVersions k =
     (case baseline_entry k of
        Some r \<Rightarrow> JString r
      | None \<Rightarrow> if k \<in> set object_prototype_names then JInherited k else JUndefined)"

definition in_baseLineVersions :: "string \<Rightarrow> bool" where
  "in_baseLineVersions k = (k \<in> set baseLineVersions_keys \<or> k \<in> set object_prototype_names)"

text \<open>
  An alias target is an array \<^verbatim>\<open>[family, major]\<close> that may go on with a minor and
  a patch; the four components are \<^verbatim>\<open>a[0]\<close> to \<^verbatim>\<open>a[3]\<close>.  The four
  formats of an alias (lines 44 to 53) are the four constructors.
\<close>

type_synonym target = "string \<times> string \<times> string option \<times> string option"

datatype alias_rule =
    Rename string
  | Fixed target
  | VersionMap "(string \<times> target) list"
  | Computed "agent \<Rightarrow> agent"

definition arr2 :: "string \<Rightarrow> string \<Rightarrow> target" where
  "arr2 f ma = (f, ma, None, None)"

text \<open>
  The entries of a version map are listed as \<^verbatim>\<open>for ... in\<close> enumerates them.  The
  keys of \<^verbatim>\<open>"opera"\<close> and the key \<^verbatim>\<open>"10"\<close> of \<^verbatim>\<open>"uc browser"\<close>
  are integer keys, enumerated first and in ascending order; all other keys come in the order
  they are written.  For each of the four maps this is the order of the source text.
\<close>

definition uc_browser_map :: "(string \<times> target) list" where
  "uc_browser_map = [(''10'', arr2 ''uc browser'' ''0''), (''9.9.*'', arr2 ''ie'' ''10'')]"

definition yandex_map :: "(string \<times> target) list" where
  "yandex_map =
    [(''18.9'', arr2 ''chrome'' ''68''), (''18.7'', arr2 ''chrome'' ''67''),
     (''18.6'', arr2 ''chrome'' ''66''), (''18.5'', arr2 ''chrome'' ''65''),
     (''18.4'', arr2 ''chrome'' ''65''), (''18.3'', arr2 ''chrome'' ''64''),
     (''18.2'', arr2 ''chrome'' ''63''), (''18.1'', arr2 ''chrome'' ''63''),
     (''17.11'', arr2 ''chrome'' ''62''), (''17.10'', arr2 ''chrome'' ''61''),
     (''17.9'', arr2 ''chrome'' ''60''), (''17.8'', arr2 ''chrome'' ''59''),
     (''17.7'', arr2 ''chrome'' ''59''), (''17.6'', arr2 ''chrome'' ''58''),
     (''17.5'', arr2 ''chrome'' ''57''), (''17.4'', arr2 ''chrome'' ''57''),
     (''17.3'', arr2 ''chrome'' ''56''), (''17.2'', arr2 ''chrome'' ''55''),
     (''17.1'', arr2 ''chrome'' ''55''), (''16.11'', arr2 ''chrome'' ''54''),
     (''16.10'', arr2 ''chrome'' ''51''), (''16.9'', arr2 ''chrome'' ''51''),
     (''16.8'', arr2 ''chrome'' ''51''), (''16.7'', arr2 ''chrome'' ''51''),
     (''16.6'', arr2 ''chrome'' ''50''), (''16.5'', arr2 ''chrome'' ''49''),
     (''16.4'', arr2 ''chrome'' ''49''), (''16.3'', arr2 ''chrome'' ''47''),
     (''16.2'', arr2 ''chrome'' ''47''), (''16.1'', arr2 ''chrome'' ''47''),
     (''15.12'', arr2 ''chrome'' ''46''), (''15.11'', arr2 ''chrome'' ''45''),
     (''15.10'', arr2 ''chrome'' ''45''), (''15.9'', arr2 ''chrome'' ''44''),
     (''15.8'', arr2 ''chrome'' ''43''), (''15.7'', arr2 ''chrome'' ''43''),
     (''15.6'', arr2 ''chrome'' ''42''), (''15.5'', arr2 ''chrome'' ''41''),
     (''15.4'', arr2 ''chrome'' ''41''), (''15.3'', arr2 ''chrome'' ''40''),
     (''15.2'', arr2 ''chrome'' ''40''), (''15.1'', arr2 ''chrome'' ''40''),
     (''14.10'', arr2 ''chrome'' ''37''), (''14.9'', arr2 ''chrome'' ''36''),
     (''14.8'', arr2 ''chrome'' ''36''), (''14.7'', arr2 ''chrome'' ''35''),
     (''14.6'', arr2 ''chrome'' ''34''), (''14.5'', arr2 ''chrome'' ''34''),
     (''14.4'', arr2 ''chrome'' ''33''), (''14.3'', arr2 ''chrome'' ''32''),
     (''14.2'', arr2 ''chrome'' ''32''), (''13.12'', arr2 ''chrome'' ''30''),
     (''13.10'', arr2 ''chrome'' ''28'')]"

definition opera_map :: "(string \<times> target) list" where
  "opera_map =
    [(''20'', arr2 ''chrome'' ''33''), (''21'', arr2 ''chrome'' ''34''),
     (''22'', arr2 ''chrome'' ''35''), (''23'', arr2 ''chrome'' ''36''),
     (''24'', arr2 ''chrome'' ''37''), (''25'', arr2 ''chrome'' ''38''),
     (''26'', arr2 ''chrome'' ''39''), (''27'', arr2 ''chrome'' ''40''),
     (''28'', arr2 ''chrome'' ''41''), (''29'', arr2 ''chrome'' ''42''),
     (''30'', arr2 ''chrome'' ''43''), (''31'', arr2 ''chrome'' ''44''),
     (''32'', arr2 ''chrome'' ''45''), (''33'', arr2 ''chrome'' ''46''),
     (''34'', arr2 ''chrome'' ''47''), (''35'', arr2 ''chrome'' ''48''),
     (''36'', arr2 ''chrome'' ''49''), (''37'', arr2 ''chrome'' ''50''),
     (''38'', arr2 ''chrome'' ''51''), (''39'', arr2 ''chrome'' ''52''),
     (''40'', arr2 ''chrome'' ''53''), (''41'', arr2 ''chrome'' ''54''),
     (''42'', arr2 ''chrome'' ''55''), (''43'', arr2 ''chrome'' ''56''),
     (''44'', arr2 ''chrome'' ''57''), (''45'', arr2 ''chrome'' ''58''),
     (''46'', arr2 ''chrome'' ''59''), (''47'', arr2 ''chrome'' ''60'')]"

definition googlebot_map :: "(string \<times> target) list" where
  "googlebot_map = [(''2.1'', arr2 ''chrome'' ''41'')]"

definition aliases_table :: "(string \<times> alias_rule) list" where
  "aliases_table =
    [(''blackberry webkit'', Rename ''bb''),
     (''blackberry'', Rename ''bb''),
     (''pale moon (firefox variant)'', Rename ''firefox''),
     (''pale moon'', Rename ''firefox''),
     (''firefox mobile'', Rename ''firefox_mob''),
     (''firefox namoroka'', Rename ''firefox''),
     (''firefox shiretoko'', Rename ''firefox''),
     (''firefox minefield'', Rename ''firefox''),
     (''firefox alpha'', Rename ''firefox''),
     (''firefox beta'', Rename ''firefox''),
     (''microb'', Rename ''firefox''),
     (''mozilladeveloperpreview'', Rename ''firefox''),
     (''iceweasel'', Rename ''firefox''),
     (''opera tablet'', Rename ''opera''),
     (''opera mobile'', Rename ''op_mob''),
     (''opera mini'', Rename ''op_mini''),
     (''chrome mobile'', Rename ''chrome''),
     (''chrome frame'', Rename ''chrome''),
     (''chromium'', Rename ''chrome''),
     (''headlesschrome'', Rename ''chrome''),
     (''ie mobile'', Rename ''ie_mob''),
     (''ie large screen'', Rename ''ie''),
     (''internet explorer'', Rename ''ie''),
     (''edge'', Rename ''ie''),
     (''edge mobile'', Rename ''ie''),
     (''uc browser'', VersionMap uc_browser_map),
     (''chrome mobile ios'', Rename ''ios_chr''),
     (''mobile safari'', Rename ''ios_saf''),
     (''iphone'', Rename ''ios_saf''),
     (''iphone simulator'', Rename ''ios_saf''),
     (''mobile safari uiwebview'', Rename ''ios_saf''),
     (''mobile safari ui/wkwebview'', Rename ''ios_saf''),
     (''samsung internet'', Rename ''samsung_mob''),
     (''phantomjs'', Fixed (arr2 ''safari'' ''5'')),
     (''yandex browser'', VersionMap yandex_map),
     (''opera'', VersionMap opera_map),
     (''googlebot'', VersionMap googlebot_map)]"

text \<open>
  \<^verbatim>\<open>aliases[k]\<close>, on the table's own keys.  The key is a lowercased family, and
  the only lowercase names the object inherits are \<^verbatim>\<open>constructor\<close> and
  \<^verbatim>\<open>__proto__\<close>.  For the first the source takes the function branch with
  \<^verbatim>\<open>Object(this.ua)\<close>, which is the record itself; for the second it takes the
  object branch and finds no enumerable key; both leave the record as it is, as the model
  does for a key without alias.
\<close>

definition aliases :: "string \<Rightarrow> alias_rule option" where
  "aliases k = map_of aliases_table k"

subsection \<open>Alias resolution\<close>

text \<open>
  The external collaborators are parameters of the model: the parser
  \<^verbatim>\<open>useragent.parse\<close>, a function \<open>parse\<close> from the string it is given to a
  record, and the range test \<^verbatim>\<open>Agent.prototype.satisfies\<close> of
  \<^verbatim>\<open>useragent/features\<close>, a predicate \<open>sat\<close> on a record and the range it is
  given, where the range \<^verbatim>\<open>undefined\<close> is \<^term>\<open>None\<close>.  The constructor
  hands the range test the keys of a version map only; a call that throws there ends the
  constructor with the exception, and the model of the constructor describes the runs in which
  the range test returns.  The query methods below are modelled with a range test that may
  throw.
\<close>

type_synonym range_test = "agent \<Rightarrow> string option \<Rightarrow> bool"

definition agent_of_target :: "target \<Rightarrow> agent" where
  "agent_of_target a = (case a of (a0, a1, a2, a3) \<Rightarrow> Agent a0 a1 (or0 a2) (or0 a3))"

definition MAX_SAFE_INTEGER :: int where
  "MAX_SAFE_INTEGER = 9007199254740991"

record mindiff =
  d_major :: int
  d_minor :: int
  lastUa :: agent

text \<open>\<^verbatim>\<open>Number(x || 0)\<close> on a component of \<^verbatim>\<open>semverExpr.split('.')\<close>.\<close>

definition number_or0 :: "string option \<Rightarrow> int option" where
  "number_or0 x = (case x of None \<Rightarrow> Some 0 | Some s \<Rightarrow> if s = [] then Some 0 else to_number s)"

text \<open>\<^verbatim>\<open>Math.abs(a - b)\<close>; it is \<^verbatim>\<open>NaN\<close> when an operand is.\<close>

definition abs_diff :: "int option \<Rightarrow> int option \<Rightarrow> int option" where
  "abs_diff a b =
     (case a of
        None \<Rightarrow> None
      | Some x \<Rightarrow> (case b of None \<Rightarrow> None | Some y \<Rightarrow> Some \<bar>x - y\<bar>))"

definition nth_opt :: "'a list \<Rightarrow> nat \<Rightarrow> 'a option" where
  "nth_opt xs i = (if i < length xs then Some (xs ! i) else None)"

text \<open>Lines 273 to 279: the two differences of \<^verbatim>\<open>currDiff\<close>.\<close>

definition curr_major :: "agent \<Rightarrow> string \<Rightarrow> int option" where
  "curr_major u semverExpr =
     abs_diff (to_number (major u)) (number_or0 (nth_opt (take 2 (split_dot semverExpr)) 0))"

definition curr_minor :: "agent \<Rightarrow> string \<Rightarrow> int option" where
  "curr_minor u semverExpr =
     abs_diff (to_number (minor u)) (number_or0 (nth_opt (take 2 (split_dot semverExpr)) 1))"

text \<open>
  Lines 281 to 287: the update of \<^verbatim>\<open>minDiff\<close> by one entry that is not an exact
  match.  A comparison with \<^verbatim>\<open>NaN\<close> is false.
\<close>

definition track :: "agent \<Rightarrow> mindiff \<Rightarrow> string \<times> target \<Rightarrow> mindiff" where
  "track u m e =
     (case curr_major u (fst e) of
        None \<Rightarrow> m
      | Some cmajor \<Rightarrow>
          if cmajor \<le> d_major m then
            (case curr_minor u (fst e) of
               None \<Rightarrow> m\<lparr>d_major := cmajor\<rparr>
             | Some cminor \<Rightarrow>
                 if cminor \<le> d_minor m
                 then m\<lparr>d_major := cmajor, d_minor := cminor, lastUa := agent_of_target (snd e)\<rparr>
                 else m\<lparr>d_major := cmajor\<rparr>)
          else m)"

text \<open>Lines 260 to 289: the loop over the entries, left by \<^verbatim>\<open>break\<close> at an exact match.\<close>

fun scan :: "range_test \<Rightarrow> agent \<Rightarrow> (string \<times> target) list \<Rightarrow> mindiff \<Rightarrow> mindiff" where
  "scan sat u [] m = m"
| "scan sat u (e # es) m =
     (if sat u (Some (fst e)) then m\<lparr>lastUa := agent_of_target (snd e)\<rparr>
      else scan sat u es (track u m e))"

definition minDiff0 :: "agent \<Rightarrow> mindiff" where
  "minDiff0 u = \<lparr>d_major = MAX_SAFE_INTEGER, d_minor = MAX_SAFE_INTEGER, lastUa = u\<rparr>"

definition resolve_version_map :: "range_test \<Rightarrow> agent \<Rightarrow> (string \<times> target) list \<Rightarrow> agent" where
  "resolve_version_map sat u es = lastUa (scan sat u es (minDiff0 u))"

text \<open>Lines 235 to 293: the dispatch on the alias of the family.\<close>

definition resolve_alias :: "range_test \<Rightarrow> agent \<Rightarrow> agent" where
  "resolve_alias sat u =
     (case aliases (family u) of
        None \<Rightarrow> u
      | Some (Computed f) \<Rightarrow> f u
      | Some (Rename t) \<Rightarrow> u\<lparr>family := t\<rparr>
      | Some (Fixed a) \<Rightarrow> agent_of_target a
      | Some (VersionMap es) \<Rightarrow> resolve_version_map sat u es)"

subsection \<open>The constructor\<close>

text \<open>
  The module's cache is state the constructor reads and writes, so the model takes the cache
  and returns it.  Besides the record \<^verbatim>\<open>this.ua\<close> the outcome lists what an
  instrumented parser and an instrumented cache would have seen: the strings handed to
  \<^verbatim>\<open>useragent.parse\<close>, the keys of \<^verbatim>\<open>cache.get\<close> and the keys of
  \<^verbatim>\<open>cache.set\<close>.
\<close>

record outcome =
  ua :: agent
  cache_after :: lru
  parser_calls :: "string list"
  get_keys :: "string list"
  set_keys :: "string list"

text \<open>Line 203: the length test and the shape match, on the truncated string.\<close>

definition short_shape :: "string \<Rightarrow> groups option" where
  "short_shape uaString = (if length uaString < 22 then match_shape uaString else None)"

text \<open>Lines 211 to 294: the branch taken when neither the shape nor the cache answers.\<close>

definition full_resolution :: "range_test \<Rightarrow> (string \<Rightarrow> agent) \<Rightarrow> string \<Rightarrow> agent" where
  "full_resolution sat parse cleaned =
     (let u0 = parse cleaned;
          u1 = u0\<lparr>patch := ''0''\<rparr>;
          u2 = u1\<lparr>family := toLowerCase (family u1)\<rparr>
      in resolve_alias sat u2)"

definition UA :: "range_test \<Rightarrow> (string \<Rightarrow> agent) \<Rightarrow> lru \<Rightarrow> string \<Rightarrow> outcome" where
  "UA sat parse c raw =
     (let uaString = take MAX_UA_LEN raw in
      case short_shape uaString of
        Some n \<Rightarrow>
          \<lparr>ua = agent_of_groups n, cache_after = c,
           parser_calls = [], get_keys = [], set_keys = []\<rparr>
      | None \<Rightarrow>
          (case cache_get c uaString of
             (Some n, c1) \<Rightarrow>
               \<lparr>ua = agent_of_groups n, cache_after = c1,
                parser_calls = [], get_keys = [uaString], set_keys = []\<rparr>
           | (None, c1) \<Rightarrow>
               (let cleaned = sanitize uaString;
                    u = full_resolution sat parse cleaned
                in \<lparr>ua = u,
                    cache_after = cache_set c1 cleaned (family u, major u, Some (minor u), Some (patch u)),
                    parser_calls = [cleaned], get_keys = [uaString], set_keys = [cleaned]\<rparr>)))"

text \<open>The cache of a process that has classified the strings \<open>ss\<close>, in this order, since its start.\<close>

definition cache_after_all :: "range_test \<Rightarrow> (string \<Rightarrow> agent) \<Rightarrow> string list \<Rightarrow> lru" where
  "cache_after_all sat parse ss = foldl (\<lambda>c s. cache_after (UA sat parse c s)) [] ss"

subsection \<open>The query methods\<close>

definition getFamily :: "agent \<Rightarrow> string" where
  "getFamily u = family u"

definition getVersion :: "agent \<Rightarrow> string" where
  "getVersion u = toVersion u"

text \<open>
  The range test of the query methods is a parameter \<open>call\<close>: it is handed the record and
  a value, and it returns a truth value or throws (\<^term>\<open>None\<close>).  A method that calls
  it is a run: its result, or \<^term>\<open>None\<close> when a call threw, and the values handed to
  the range test, in the order of the calls.  The only way a run learns an answer of the range
  test is \<open>range_test_call\<close>, which records the value; the operators \<^verbatim>\<open>&&\<close>
  and \<^verbatim>\<open>||\<close> run their right operand only when the left one does not decide, and an
  exception ends the run.
\<close>

type_synonym range_call = "agent \<Rightarrow> jsval \<Rightarrow> bool option"

type_synonym 'a run = "'a option \<times> jsval list"

definition returns :: "'a \<Rightarrow> 'a run" where
  "returns x = (Some x, [])"

definition range_test_call :: "range_call \<Rightarrow> agent \<Rightarrow> jsval \<Rightarrow> bool run" where
  "range_test_call call u v = (call u v, [v])"

definition then_run :: "'a run \<Rightarrow> ('a \<Rightarrow> 'b run) \<Rightarrow> 'b run" where
  "then_run m f =
     (case fst m of
        None \<Rightarrow> (None, snd m)
      | Some x \<Rightarrow> (fst (f x), snd m @ snd (f x)))"

definition and_also :: "bool run \<Rightarrow> bool run \<Rightarrow> bool run" where
  "and_also a b = then_run a (\<lambda>x. if x then b else returns False)"

definition or_else :: "bool run \<Rightarrow> bool run \<Rightarrow> bool run" where
  "or_else a b = then_run a (\<lambda>x. if x then returns True else b)"

text \<open>Lines 306 to 312; the caller's argument is a range text.\<close>

definition satisfies_run :: "range_call \<Rightarrow> agent \<Rightarrow> string \<Rightarrow> bool run" where
  "satisfies_run call u r =
     and_also
       (and_also (range_test_call call u (JString r))
                 (returns (in_baseLineVersions (family u))))
       (range_test_call call u (baseLineVersions (family u)))"

text \<open>Lines 313 to 315.\<close>

definition getBaseline :: "agent \<Rightarrow> jsval" where
  "getBaseline u = baseLineVersions (family u)"

text \<open>Lines 316 to 318.\<close>

definition meetsBaseline_run :: "range_call \<Rightarrow> agent \<Rightarrow> bool run" where
  "meetsBaseline_run call u = range_test_call call u (baseLineVersions (family u))"

text \<open>Lines 319 to 321.\<close>

definition isUnknown_run :: "range_call \<Rightarrow> agent \<Rightarrow> bool run" where
  "isUnknown_run call u =
     or_else (returns (family u \<notin> set baseLineVersions_keys))
             (then_run (meetsBaseline_run call u) (\<lambda>b. returns (\<not> b)))"

text \<open>The results of the three methods, \<^term>\<open>None\<close> for an exception.\<close>

definition UA_satisfies :: "range_call \<Rightarrow> agent \<Rightarrow> string \<Rightarrow> bool option" where
  "UA_satisfies call u r = fst (satisfies_run call u r)"

definition meetsBaseline :: "range_call \<Rightarrow> agent \<Rightarrow> bool option" where
  "meetsBaseline call u = fst (meetsBaseline_run call u)"

definition isUnknown :: "range_call \<Rightarrow> agent \<Rightarrow> bool option" where
  "isUnknown call u = fst (isUnknown_run call u)"

text \<open>
  Lines 323 to 329.  The pattern of line 324 is the pattern of line 203 without its groups;
  the result goes with the cache the call leaves behind.
\<close>

definition UA_normalize :: "range_test \<Rightarrow> (string \<Rightarrow> agent) \<Rightarrow> lru \<Rightarrow> string \<Rightarrow> string \<times> lru" where
  "UA_normalize sat parse c uaString =
     (if match_shape uaString \<noteq> None then (toLowerCase uaString, c)
      else (let r = UA sat parse c uaString
            in (getFamily (ua r) @ ''/'' @ getVersion (ua r), cache_after r)))"

subsection \<open>Stand-ins for the external collaborators\<close>

text \<open>
  Stubs on which the model can be run: a parser that recognises nothing, a parser that
  recognises one UC Browser string, a range test that knows the major version, a range test
  that no record passes, and a range test for the query methods.
\<close>

definition parse_nothing :: "string \<Rightarrow> agent" where
  "parse_nothing s = Agent ''Other'' ''0'' ''0'' ''0''"

definition parse_uc :: "string \<Rightarrow> agent" where
  "parse_uc s =
     (if s = ''UCBrowser/10.0.0.488'' then Agent ''UC Browser'' ''10'' ''0'' ''0''
      else Agent ''Other'' ''0'' ''0'' ''0'')"

text \<open>A range test that knows one kind of range: the text of the major version.\<close>

definition sat_major :: range_test where
  "sat_major u r = (r = Some (major u))"

definition sat_never :: range_test where
  "sat_never u r = False"

text \<open>
  A range test for the query methods that knows one range, \<^verbatim>\<open>"*"\<close>, which every
  version satisfies.  As the semver package does, it answers false to a value that is not a
  range text, and it throws when the major version of the record is above
  \<^verbatim>\<open>Number.MAX_SAFE_INTEGER\<close>.
\<close>

definition call_star :: range_call where
  "call_star u v =
     (case v of
        JString r \<Rightarrow>
          (case to_number (major u) of
             None \<Rightarrow> Some (r = ''*'')
           | Some n \<Rightarrow> if MAX_SAFE_INTEGER < n then None else Some (r = ''*''))
      | JUndefined \<Rightarrow> Some False
      | JInherited n \<Rightarrow> Some False)"

subsection \<open>The VersionMap rule in the words of the specification\<close>

text \<open>
  For the comparison with \<^const>\<open>resolve_version_map\<close> only; these definitions follow
  section 4.3 of the specification, not the source, and compute the differences on their
  own, without \<^const>\<open>curr_major\<close>, \<^const>\<open>curr_minor\<close> and \<^const>\<open>split_dot\<close>.  The entries are numbered from 0 in
  table order, and ``so far'' at entry \<open>i\<close> means the entries before \<open>i\<close>.

  The first entry whose expression the detected version satisfies exactly:
\<close>

definition spec_first_exact :: "range_test \<Rightarrow> agent \<Rightarrow> (string \<times> target) list \<Rightarrow> (string \<times> target) option" where
  "spec_first_exact sat u es = find (\<lambda>e. sat u (Some (fst e))) es"

text \<open>
  The number a version component stands for: the value of its decimal digits, which is 0 for
  the empty component.  A component that is not written in digits only stands for no number,
  and a difference with it is none.
\<close>

fun digits_value :: "string \<Rightarrow> int" where
  "digits_value [] = 0"
| "digits_value (c # cs) = (of_char c - 48) * 10 ^ length cs + digits_value cs"

definition spec_number :: "string \<Rightarrow> int option" where
  "spec_number s = (if list_all is_digit s then Some (digits_value s) else None)"

text \<open>
  The leading two dot-separated components of an expression: the text before the first dot,
  and the text between the first dot and the second.  A missing second component is the empty
  one, and so counts as 0.
\<close>

definition spec_component1 :: "string \<Rightarrow> string" where
  "spec_component1 expr = takeWhile (\<lambda>c. c \<noteq> CHR ''.'') expr"

definition spec_component2 :: "string \<Rightarrow> string" where
  "spec_component2 expr =
     takeWhile (\<lambda>c. c \<noteq> CHR ''.'') (drop 1 (dropWhile (\<lambda>c. c \<noteq> CHR ''.'') expr))"

text \<open>
  \<open>majorDiff = |detectedMajor - exprMajor|\<close> and \<open>minorDiff = |detectedMinor - exprMinor|\<close>.
\<close>

definition spec_diff :: "string \<Rightarrow> string \<Rightarrow> int option" where
  "spec_diff detected component =
     (case spec_number detected of
        None \<Rightarrow> None
      | Some a \<Rightarrow> (case spec_number component of None \<Rightarrow> None | Some b \<Rightarrow> Some \<bar>a - b\<bar>))"

definition spec_major_diff :: "agent \<Rightarrow> string \<Rightarrow> int option" where
  "spec_major_diff u expr = spec_diff (major u) (spec_component1 expr)"

definition spec_minor_diff :: "agent \<Rightarrow> string \<Rightarrow> int option" where
  "spec_minor_diff u expr = spec_diff (minor u) (spec_component2 expr)"

text \<open>The best major-diff so far: the least \<open>majorDiff\<close> of the entries before \<open>i\<close>.\<close>

definition spec_best_major :: "agent \<Rightarrow> (string \<times> target) list \<Rightarrow> nat \<Rightarrow> int" where
  "spec_best_major u es i =
     foldl (\<lambda>b e. case spec_major_diff u (fst e) of None \<Rightarrow> b | Some d \<Rightarrow> min b d)
       MAX_SAFE_INTEGER (take i es)"

text \<open>``Within that condition'': the \<open>majorDiff\<close> of entry \<open>i\<close> is at most the best so far.\<close>

definition spec_within :: "agent \<Rightarrow> (string \<times> target) list \<Rightarrow> nat \<Rightarrow> bool" where
  "spec_within u es i =
     (case spec_major_diff u (fst (es ! i)) of
        None \<Rightarrow> False
      | Some d \<Rightarrow> d \<le> spec_best_major u es i)"

text \<open>
  The best minor-diff so far: the least \<open>minorDiff\<close> of the entries before \<open>i\<close> that were
  within that condition.
\<close>

fun spec_best_minor :: "agent \<Rightarrow> (string \<times> target) list \<Rightarrow> nat \<Rightarrow> int" where
  "spec_best_minor u es 0 = MAX_SAFE_INTEGER"
| "spec_best_minor u es (Suc i) =
     (if spec_within u es i
      then (case spec_minor_diff u (fst (es ! i)) of
              None \<Rightarrow> spec_best_minor u es i
            | Some d \<Rightarrow> min (spec_best_minor u es i) d)
      else spec_best_minor u es i)"

text \<open>Entry \<open>i\<close> replaces the current best candidate.\<close>

definition spec_replaces :: "agent \<Rightarrow> (string \<times> target) list \<Rightarrow> nat \<Rightarrow> bool" where
  "spec_replaces u es i =
     (spec_within u es i \<and>
      (case spec_minor_diff u (fst (es ! i)) of
         None \<Rightarrow> False
       | Some d \<Rightarrow> d \<le> spec_best_minor u es i))"

text \<open>
  The best candidate after the first \<open>i\<close> entries: the target of the last entry that
  replaced it, the detected record when none did.
\<close>

fun spec_candidate :: "agent \<Rightarrow> (string \<times> target) list \<Rightarrow> nat \<Rightarrow> agent" where
  "spec_candidate u es 0 = u"
| "spec_candidate u es (Suc i) =
     (if spec_replaces u es i then agent_of_target (snd (es ! i)) else spec_candidate u es i)"

definition version_map_spec :: "range_test \<Rightarrow> agent \<Rightarrow> (string \<times> target) list \<Rightarrow> agent" where
  "version_map_spec sat u es =
     (case spec_first_exact sat u es of
        Some e \<Rightarrow> agent_of_target (snd e)
      | None \<Rightarrow> spec_candidate u es (length es))"

subsection \<open>Invariants of records, alias rules and cache entries\<close>

definition lowercase :: "string \<Rightarrow> bool" where
  "lowercase s = (toLowerCase s = s)"

text \<open>A record as the full resolution leaves it: lowercase family, patch 0.\<close>

definition agent_ok :: "agent \<Rightarrow> bool" where
  "agent_ok u = (lowercase (family u) \<and> patch u = ''0'')"

fun alias_ok :: "alias_rule \<Rightarrow> bool" where
  "alias_ok (Rename t) = lowercase t"
| "alias_ok (Fixed a) = agent_ok (agent_of_target a)"
| "alias_ok (VersionMap es) = list_all (\<lambda>e. agent_ok (agent_of_target (snd e))) es"
| "alias_ok (Computed f) = False"

definition entry_ok :: "string \<times> groups \<Rightarrow> bool" where
  "entry_ok e = (case e of (k, f, ma, mi, pa) \<Rightarrow> lowercase f \<and> mi \<noteq> None \<and> pa = Some ''0'')"

definition cache_ok :: "lru \<Rightarrow> bool" where
  "cache_ok c = list_all entry_ok c"

subsection \<open>Sample inputs\<close>

text \<open>A user-agent string with an Electron token, and the same string without the token.\<close>

definition electron_ua :: string where
  "electron_ua = ''Mozilla/5.0 (X11; Linux x86_64) Chrome/61.0.3163.100 Electron/2.0.0 Safari/537.36''"

definition electron_cleaned :: string where
  "electron_cleaned = ''Mozilla/5.0 (X11; Linux x86_64) Chrome/61.0.3163.100 Safari/537.36''"

text \<open>Two records as the parser may detect them: Yandex Browser 14.1 and 17.12.\<close>

definition yandex_14_1 :: agent where
  "yandex_14_1 = Agent ''yandex browser'' ''14'' ''1'' ''0''"

definition yandex_17_12 :: agent where
  "yandex_17_12 = Agent ''yandex browser'' ''17'' ''12'' ''0''"

section \<open>Properties\<close>

subsection \<open>Characters\<close>

lemma of_char_lower:
  "(of_char (lower_char c) :: nat) = (if is_upper c then of_char c + 32 else of_char c)"
  by (simp add: lower_char_def is_upper_def Let_def)

lemma char_eq_by_code: "(c = d) = ((of_char c :: nat) = of_char d)"
  by simp

lemma lower_char_idem: "lower_char (lower_char c) = lower_char c"
  by (simp add: char_eq_by_code[of "lower_char (lower_char c)"] of_char_lower is_upper_def Let_def)

lemma is_word_lower: "is_word (lower_char c) = is_word c"
  by (auto simp add: is_word_def of_char_lower is_upper_def Let_def)

lemma is_digit_lower: "is_digit (lower_char c) = is_digit c"
  by (auto simp add: is_digit_def of_char_lower is_upper_def Let_def)

lemma lower_char_slash: "(lower_char c = CHR ''/'') = (c = CHR ''/'')"
  by (auto simp add: char_eq_by_code[of _ "CHR ''/''"] of_char_lower is_upper_def Let_def)

lemma lower_char_dot: "(lower_char c = CHR ''.'') = (c = CHR ''.'')"
  by (auto simp add: char_eq_by_code[of _ "CHR ''.''"] of_char_lower is_upper_def Let_def)

lemma lower_char_fixed: "\<not> is_upper c \<Longrightarrow> lower_char c = c"
  by (simp add: lower_char_def)

lemma toLowerCase_idem: "toLowerCase (toLowerCase s) = toLowerCase s"
  by (simp add: toLowerCase_def lower_char_idem)

subsection \<open>The shortcut on the canonical shape keeps the case of the name\<close>

lemma take_Chrome50: "take MAX_UA_LEN ''Chrome/50'' = ''Chrome/50''"
  by (simp add: MAX_UA_LEN_def)

lemma short_shape_Chrome50: "short_shape ''Chrome/50'' = Some (''Chrome'', ''50'', None, None)"
  by code_simp

lemma match_shape_Chrome50: "match_shape ''Chrome/50'' \<noteq> None"
  by code_simp

lemma toLowerCase_Chrome50: "toLowerCase ''Chrome/50'' = ''chrome/50''"
  by code_simp

lemma toLowerCase_Chrome: "toLowerCase ''Chrome'' = ''chrome''"
  by code_simp

text \<open>
  C7, at the input \<^verbatim>\<open>"Chrome/50"\<close>: whatever the parser, the range test and the cache
  are, the constructor answers from the shape and \<^verbatim>\<open>getFamily()\<close> is
  \<^verbatim>\<open>"Chrome"\<close>, which is not lowercase, although the baseline table knows
  \<^verbatim>\<open>"chrome"\<close> only; on the same input \<^verbatim>\<open>UA.normalize\<close> does lowercase.
\<close>

theorem getFamily_shape_shortcut_not_lowercase:
  "getFamily (ua (UA sat parse c ''Chrome/50'')) = ''Chrome''
   \<and> toLowerCase ''Chrome'' = ''chrome''
   \<and> parser_calls (UA sat parse c ''Chrome/50'') = []
   \<and> baseLineVersions (getFamily (ua (UA sat parse c ''Chrome/50''))) = JUndefined
   \<and> baseLineVersions ''chrome'' = JString ''*''
   \<and> fst (UA_normalize sat parse c ''Chrome/50'') = ''chrome/50''"
  by (simp add: UA_def take_Chrome50 short_shape_Chrome50 getFamily_def agent_of_groups_def
      Agent_def toLowerCase_Chrome UA_normalize_def match_shape_Chrome50 toLowerCase_Chrome50
      baseLineVersions_def baseline_entry_def baseLineVersions_table_def
      object_prototype_names_def)

subsection \<open>The key of the cache lookup and the key of the cache store\<close>

lemma take_electron: "take MAX_UA_LEN electron_ua = electron_ua"
  by (simp add: MAX_UA_LEN_def electron_ua_def)

lemma short_shape_electron: "short_shape electron_ua = None"
  by code_simp

lemma sanitize_electron: "sanitize electron_ua = electron_cleaned"
  by code_simp

lemma electron_keys_differ: "electron_cleaned \<noteq> electron_ua"
  by (simp add: electron_cleaned_def electron_ua_def)

lemma cache_get_empty: "cache_get [] k = (None, [])"
  by (simp add: cache_get_def)

lemma cache_set_empty: "cache_set [] k v = [(k, v)]"
  by (simp add: cache_set_def cache_max_def)

lemma UA_electron_fresh:
  "UA sat parse [] electron_ua =
     \<lparr>ua = full_resolution sat parse electron_cleaned,
      cache_after = [(electron_cleaned,
         family (full_resolution sat parse electron_cleaned),
         major (full_resolution sat parse electron_cleaned),
         Some (minor (full_resolution sat parse electron_cleaned)),
         Some (patch (full_resolution sat parse electron_cleaned)))],
      parser_calls = [electron_cleaned], get_keys = [electron_ua], set_keys = [electron_cleaned]\<rparr>"
  by (simp add: UA_def take_electron short_shape_electron cache_get_empty sanitize_electron
      cache_set_empty Let_def)

lemma cache_get_other_key: "k' \<noteq> k \<Longrightarrow> cache_get [(k', v)] k = (None, [(k', v)])"
  by (simp add: cache_get_def)

lemma UA_electron_again:
  "parser_calls (UA sat parse [(electron_cleaned, v)] electron_ua) = [electron_cleaned]"
  by (simp add: UA_def take_electron short_shape_electron
      cache_get_other_key[OF electron_keys_differ] sanitize_electron Let_def)

text \<open>
  C1, at a user-agent string with an Electron token, in a process that starts with an empty
  cache: the first classification hands the cleaned string to the parser and stores its result;
  the second classification of the same raw string finds nothing in the cache and hands the
  cleaned string to the parser again.
\<close>

theorem second_classification_parses_again:
  "parser_calls (UA sat parse [] electron_ua) = [electron_cleaned]
   \<and> parser_calls (UA sat parse (cache_after (UA sat parse [] electron_ua)) electron_ua)
       = [electron_cleaned]"
  by (simp add: UA_electron_fresh UA_electron_again)

text \<open>
  C2, at the same input: the lookup of the classification uses the raw (truncated) string as
  its key, the store uses the cleaned string, and the two keys differ.
\<close>

theorem lookup_key_is_not_store_key:
  "get_keys (UA sat parse [] electron_ua) = [electron_ua]
   \<and> set_keys (UA sat parse [] electron_ua) = [sanitize electron_ua]
   \<and> map fst (cache_after (UA sat parse [] electron_ua)) = [sanitize electron_ua]
   \<and> sanitize electron_ua \<noteq> electron_ua"
  by (simp add: UA_electron_fresh sanitize_electron electron_keys_differ)

subsection \<open>The baseline gate\<close>

lemma own_key_iff: "(k \<in> set baseLineVersions_keys) = (baseline_entry k \<noteq> None)"
  by (simp add: baseLineVersions_keys_def baseline_entry_def map_of_eq_None_iff)

lemma baseLineVersions_own: "baseline_entry k = Some b \<Longrightarrow> baseLineVersions k = JString b"
  by (simp add: baseLineVersions_def)

lemma baseLineVersions_absent:
  "baseline_entry k = None \<Longrightarrow> k \<notin> set object_prototype_names \<Longrightarrow> baseLineVersions k = JUndefined"
  by (simp add: baseLineVersions_def)

lemma in_baseLineVersions_off_inherited:
  "k \<notin> set object_prototype_names \<Longrightarrow> in_baseLineVersions k = (baseline_entry k \<noteq> None)"
  by (simp add: in_baseLineVersions_def own_key_iff)

lemma satisfies_run_eq:
  "satisfies_run call u r =
     (if call u (JString r) = Some True
      then (if in_baseLineVersions (family u)
            then (call u (baseLineVersions (family u)), [JString r, baseLineVersions (family u)])
            else (Some False, [JString r]))
      else (call u (JString r), [JString r]))"
  by (cases "call u (JString r)")
    (auto simp add: satisfies_run_def and_also_def then_run_def returns_def range_test_call_def)

lemma isUnknown_run_eq:
  "isUnknown_run call u =
     (case baseline_entry (family u) of
        None \<Rightarrow> (Some True, [])
      | Some b \<Rightarrow> (map_option Not (call u (JString b)), [JString b]))"
  by (cases "call u (baseLineVersions (family u))")
    (auto simp add: isUnknown_run_def or_else_def then_run_def returns_def meetsBaseline_run_def
      range_test_call_def own_key_iff baseLineVersions_own split: option.splits)

lemma family_zz: "family (ua (UA sat parse_nothing [] ''zz/99999999999999999'')) = ''zz''"
  and major_zz: "major (ua (UA sat parse_nothing [] ''zz/99999999999999999'')) = ''99999999999999999''"
proof -
  have "short_shape (take MAX_UA_LEN ''zz/99999999999999999'') = Some (''zz'', ''99999999999999999'', None, None)"
    by code_simp
  then show "family (ua (UA sat parse_nothing [] ''zz/99999999999999999'')) = ''zz''"
    and "major (ua (UA sat parse_nothing [] ''zz/99999999999999999'')) = ''99999999999999999''"
    by (simp_all add: UA_def agent_of_groups_def Agent_def)
qed

text \<open>
  C6 as stated fails at \<^verbatim>\<open>"zz/99999999999999999"\<close>, with a range test that throws on
  a major version above \<^verbatim>\<open>Number.MAX_SAFE_INTEGER\<close>: the family \<^verbatim>\<open>zz\<close> is
  absent from the baseline table and \<^verbatim>\<open>isUnknown()\<close> is true, but
  \<^verbatim>\<open>satisfies("*")\<close> does not return false, it ends with the exception of its first
  range test.
\<close>

theorem satisfies_star_throws_for_unknown_family:
  "baseline_entry (family (ua (UA sat_never parse_nothing [] ''zz/99999999999999999''))) = None
   \<and> UA_satisfies call_star (ua (UA sat_never parse_nothing [] ''zz/99999999999999999'')) ''*'' = None
   \<and> UA_satisfies call_star (ua (UA sat_never parse_nothing [] ''zz/99999999999999999'')) ''*'' \<noteq> Some False
   \<and> isUnknown call_star (ua (UA sat_never parse_nothing [] ''zz/99999999999999999'')) = Some True"
  by code_simp

text \<open>
  C6, amended.  For a record whose family is not one of the names inherited from
  \<^verbatim>\<open>Object.prototype\<close>, and for every range test: \<^verbatim>\<open>satisfies(range)\<close>
  runs the range test on the caller's range first; unless the answer is true this answer, or
  its exception, is the outcome; when it is true and the family has an entry in the baseline
  table the outcome is the answer of the range test on the range of that entry, and when the
  family has no entry the outcome is false without a second test.  So
  \<^verbatim>\<open>satisfies(range)\<close> returns true exactly when the range test returns true on the
  caller's range, the family has an entry and the range test returns true on its range; for
  a family without entry \<^verbatim>\<open>satisfies("*")\<close> returns false unless the range test throws
  on \<^verbatim>\<open>"*"\<close>, and then it throws.  \<^verbatim>\<open>isUnknown()\<close>, for every family: it is
  true without any range test when the family has no entry, and otherwise the negation of the
  range test on the range of the entry.
\<close>

theorem satisfies_true_iff_off_inherited_names:
  "(family u \<notin> set object_prototype_names \<longrightarrow>
      satisfies_run call u r =
        (if call u (JString r) = Some True
         then (case baseline_entry (family u) of
                 None \<Rightarrow> (Some False, [JString r])
               | Some b \<Rightarrow> (call u (JString b), [JString r, JString b]))
         else (call u (JString r), [JString r])))
   \<and> (family u \<notin> set object_prototype_names \<longrightarrow>
      (UA_satisfies call u r = Some True) =
        (call u (JString r) = Some True
         \<and> (\<exists>b. baseline_entry (family u) = Some b \<and> call u (JString b) = Some True)))
   \<and> (family u \<notin> set object_prototype_names \<and> baseline_entry (family u) = None \<longrightarrow>
      UA_satisfies call u ''*'' = (if call u (JString ''*'') = None then None else Some False))
   \<and> (baseline_entry (family u) = None \<longrightarrow> isUnknown_run call u = (Some True, []))
   \<and> (\<forall>b. baseline_entry (family u) = Some b \<longrightarrow>
        isUnknown_run call u = (map_option Not (call u (JString b)), [JString b]))"
proof -
  have run: "family u \<notin> set object_prototype_names \<Longrightarrow>
      satisfies_run call u r =
        (if call u (JString r) = Some True
         then (case baseline_entry (family u) of
                 None \<Rightarrow> (Some False, [JString r])
               | Some b \<Rightarrow> (call u (JString b), [JString r, JString b]))
         else (call u (JString r), [JString r]))" for r
    by (cases "baseline_entry (family u)")
      (simp_all add: satisfies_run_eq in_baseLineVersions_off_inherited baseLineVersions_own)
  have true_iff: "family u \<notin> set object_prototype_names \<Longrightarrow>
      (UA_satisfies call u r = Some True) =
        (call u (JString r) = Some True
         \<and> (\<exists>b. baseline_entry (family u) = Some b \<and> call u (JString b) = Some True))"
    by (cases "baseline_entry (family u)") (auto simp add: UA_satisfies_def run)
  have star: "family u \<notin> set object_prototype_names \<and> baseline_entry (family u) = None \<Longrightarrow>
      UA_satisfies call u ''*'' = (if call u (JString ''*'') = None then None else Some False)"
    by (cases "call u (JString ''*'')") (auto simp add: UA_satisfies_def run)
  have unknown: "baseline_entry (family u) = None \<Longrightarrow> isUnknown_run call u = (Some True, [])"
    by (simp add: isUnknown_run_eq)
  have known: "baseline_entry (family u) = Some b \<Longrightarrow>
        isUnknown_run call u = (map_option Not (call u (JString b)), [JString b])" for b
    by (simp add: isUnknown_run_eq)
  from run true_iff star unknown known show ?thesis by blast
qed

lemma classified_chrome50:
  "ua (UA sat_never parse_nothing [] ''chrome/50'') = Agent ''chrome'' ''50'' ''0'' ''0''"
  by code_simp

lemma classified_unparseable:
  "ua (UA sat_never parse_nothing [] ''???'') = Agent ''other'' ''0'' ''0'' ''0''"
  by code_simp

lemma chrome_not_inherited: "family (Agent ''chrome'' ''50'' ''0'' ''0'') \<notin> set object_prototype_names"
  and chrome_entry: "baseline_entry (family (Agent ''chrome'' ''50'' ''0'' ''0'')) = Some ''*''"
  and chrome_star: "call_star (Agent ''chrome'' ''50'' ''0'' ''0'') (JString ''*'') = Some True"
  by code_simp+

lemma other_not_inherited: "family (Agent ''other'' ''0'' ''0'' ''0'') \<notin> set object_prototype_names"
  and other_entry: "baseline_entry (family (Agent ''other'' ''0'' ''0'' ''0'')) = None"
  and other_star: "call_star (Agent ''other'' ''0'' ''0'' ''0'') (JString ''*'') = Some True"
  by code_simp+

text \<open>
  Chrome 50, whose baseline range is \<^verbatim>\<open>"*"\<close>, and the unparseable string
  \<^verbatim>\<open>"???"\<close>, with the range test that knows \<^verbatim>\<open>"*"\<close>.
\<close>

theorem satisfies_true_iff_off_inherited_names_witness:
  "UA_satisfies call_star (ua (UA sat_never parse_nothing [] ''chrome/50'')) ''*'' = Some True
   \<and> UA_satisfies call_star (ua (UA sat_never parse_nothing [] ''???'')) ''*'' = Some False
   \<and> isUnknown_run call_star (ua (UA sat_never parse_nothing [] ''???'')) = (Some True, [])"
proof (intro conjI)
  note c = satisfies_true_iff_off_inherited_names
    [of "Agent ''chrome'' ''50'' ''0'' ''0''" call_star "''*''"]
  note o = satisfies_true_iff_off_inherited_names
    [of "Agent ''other'' ''0'' ''0'' ''0''" call_star "''*''"]
  have "UA_satisfies call_star (Agent ''chrome'' ''50'' ''0'' ''0'') ''*'' = Some True"
    using c[THEN conjunct2, THEN conjunct1, rule_format, OF chrome_not_inherited]
    by (simp add: chrome_entry chrome_star)
  then show "UA_satisfies call_star (ua (UA sat_never parse_nothing [] ''chrome/50'')) ''*'' = Some True"
    by (simp only: classified_chrome50)
  have "UA_satisfies call_star (Agent ''other'' ''0'' ''0'' ''0'') ''*'' = Some False"
    using o[THEN conjunct2, THEN conjunct2, THEN conjunct1, rule_format,
        OF conjI[OF other_not_inherited other_entry]]
    by (simp add: other_star)
  then show "UA_satisfies call_star (ua (UA sat_never parse_nothing [] ''???'')) ''*'' = Some False"
    by (simp only: classified_unparseable)
  have "isUnknown_run call_star (Agent ''other'' ''0'' ''0'' ''0'') = (Some True, [])"
    using o[THEN conjunct2, THEN conjunct2, THEN conjunct2, THEN conjunct1, rule_format,
        OF other_entry] .
  then show "isUnknown_run call_star (ua (UA sat_never parse_nothing [] ''???'')) = (Some True, [])"
    by (simp only: classified_unparseable)
qed

lemma take_constructor1: "take MAX_UA_LEN ''constructor/1'' = ''constructor/1''"
  by (simp add: MAX_UA_LEN_def)

lemma short_shape_constructor1:
  "short_shape ''constructor/1'' = Some (''constructor'', ''1'', None, None)"
  by code_simp

lemma UA_constructor1:
  "ua (UA sat parse c ''constructor/1'') = Agent ''constructor'' ''1'' ''0'' ''0''"
  by (simp add: UA_def take_constructor1 short_shape_constructor1 agent_of_groups_def or0_def)

lemma constructor_facts:
  "baseline_entry ''constructor'' = None
   \<and> ''constructor'' \<notin> set baseLineVersions_keys
   \<and> in_baseLineVersions ''constructor''
   \<and> getBaseline (Agent ''constructor'' ''1'' ''0'' ''0'') = JInherited ''constructor''
   \<and> satisfies_run call_star (Agent ''constructor'' ''1'' ''0'' ''0'') ''*''
       = (Some False, [JString ''*'', JInherited ''constructor''])
   \<and> isUnknown_run call_star (Agent ''constructor'' ''1'' ''0'' ''0'') = (Some True, [])"
  by code_simp

lemma isUnknown_run_keys:
  "isUnknown_run call u =
     (if family u \<in> set baseLineVersions_keys
      then (map_option Not (call u (baseLineVersions (family u))), [baseLineVersions (family u)])
      else (Some True, []))"
  by (cases "call u (baseLineVersions (family u))")
    (auto simp add: isUnknown_run_def or_else_def then_run_def returns_def meetsBaseline_run_def
      range_test_call_def)

lemma undefined_iff_not_in:
  "(baseLineVersions k = JUndefined) = (\<not> in_baseLineVersions k)"
  by (auto simp add: baseLineVersions_def in_baseLineVersions_def own_key_iff split: option.splits)

text \<open>
  C10, at the input \<^verbatim>\<open>"constructor/1"\<close>, whatever the parser and the cache are.  The
  family \<^verbatim>\<open>constructor\<close> has no entry in the baseline table, but
  \<^verbatim>\<open>"constructor" in baseLineVersions\<close> is true, because the name is inherited; so
  \<^verbatim>\<open>satisfies("*")\<close> makes a second range test, on the inherited function, for a
  family without baseline range.  \<^verbatim>\<open>isUnknown()\<close> tests the own keys and makes no
  range test there.  For every record and range test: \<^verbatim>\<open>satisfies(range)\<close> makes
  its second range test exactly when the first answers true and the name is a key or
  inherited; \<^verbatim>\<open>isUnknown()\<close> makes its range test exactly when the name is a key;
  \<^verbatim>\<open>meetsBaseline()\<close> makes the one range test on
  \<^verbatim>\<open>baseLineVersions[family]\<close> always; and that value is \<^verbatim>\<open>undefined\<close>
  exactly when the name is neither a key nor inherited.
\<close>

theorem satisfies_tests_inherited_name:
  "getFamily (ua (UA sat parse c ''constructor/1'')) = ''constructor''
   \<and> baseline_entry ''constructor'' = None
   \<and> ''constructor'' \<notin> set baseLineVersions_keys
   \<and> in_baseLineVersions ''constructor''
   \<and> getBaseline (ua (UA sat parse c ''constructor/1'')) = JInherited ''constructor''
   \<and> satisfies_run call_star (ua (UA sat parse c ''constructor/1'')) ''*''
       = (Some False, [JString ''*'', JInherited ''constructor''])
   \<and> isUnknown_run call_star (ua (UA sat parse c ''constructor/1'')) = (Some True, [])
   \<and> satisfies_run call u r =
       (if call u (JString r) = Some True
        then (if in_baseLineVersions (family u)
              then (call u (baseLineVersions (family u)), [JString r, baseLineVersions (family u)])
              else (Some False, [JString r]))
        else (call u (JString r), [JString r]))
   \<and> isUnknown_run call u =
       (if family u \<in> set baseLineVersions_keys
        then (map_option Not (call u (baseLineVersions (family u))), [baseLineVersions (family u)])
        else (Some True, []))
   \<and> meetsBaseline_run call u = (call u (baseLineVersions (family u)), [baseLineVersions (family u)])
   \<and> (baseLineVersions (family u) = JUndefined) = (\<not> in_baseLineVersions (family u))"
proof (intro conjI)
  show "getFamily (ua (UA sat parse c ''constructor/1'')) = ''constructor''"
    by (simp add: UA_constructor1 getFamily_def Agent_def)
  show "baseline_entry ''constructor'' = None"
    by (rule constructor_facts[THEN conjunct1])
  show "''constructor'' \<notin> set baseLineVersions_keys"
    by (rule constructor_facts[THEN conjunct2, THEN conjunct1])
  show "in_baseLineVersions ''constructor''"
    by (rule constructor_facts[THEN conjunct2, THEN conjunct2, THEN conjunct1])
  show "getBaseline (ua (UA sat parse c ''constructor/1'')) = JInherited ''constructor''"
    unfolding UA_constructor1
    by (rule constructor_facts[THEN conjunct2, THEN conjunct2, THEN conjunct2, THEN conjunct1])
  show "satisfies_run call_star (ua (UA sat parse c ''constructor/1'')) ''*''
       = (Some False, [JString ''*'', JInherited ''constructor''])"
    unfolding UA_constructor1
    by (rule constructor_facts[THEN conjunct2, THEN conjunct2, THEN conjunct2, THEN conjunct2,
          THEN conjunct1])
  show "isUnknown_run call_star (ua (UA sat parse c ''constructor/1'')) = (Some True, [])"
    unfolding UA_constructor1
    by (rule constructor_facts[THEN conjunct2, THEN conjunct2, THEN conjunct2, THEN conjunct2,
          THEN conjunct2])
  show "satisfies_run call u r =
       (if call u (JString r) = Some True
        then (if in_baseLineVersions (family u)
              then (call u (baseLineVersions (family u)), [JString r, baseLineVersions (family u)])
              else (Some False, [JString r]))
        else (call u (JString r), [JString r]))"
    by (rule satisfies_run_eq)
  show "isUnknown_run call u =
       (if family u \<in> set baseLineVersions_keys
        then (map_option Not (call u (baseLineVersions (family u))), [baseLineVersions (family u)])
        else (Some True, []))"
    by (rule isUnknown_run_keys)
  show "meetsBaseline_run call u = (call u (baseLineVersions (family u)), [baseLineVersions (family u)])"
    by (simp add: meetsBaseline_run_def range_test_call_def)
  show "(baseLineVersions (family u) = JUndefined) = (\<not> in_baseLineVersions (family u))"
    by (rule undefined_iff_not_in)
qed

subsection \<open>What the full resolution and the cache preserve\<close>

lemma aliases_table_ok: "list_all (\<lambda>e. alias_ok (snd e)) aliases_table"
  by code_simp

lemma aliases_ok: "aliases k = Some a \<Longrightarrow> alias_ok a"
  using aliases_table_ok
  by (auto simp add: aliases_def list_all_iff dest!: map_of_SomeD)

lemma lastUa_track:
  "lastUa (track u m e) = lastUa m \<or> lastUa (track u m e) = agent_of_target (snd e)"
  by (simp add: track_def split: option.splits)

lemma lastUa_scan:
  "P (lastUa m) \<Longrightarrow> list_all (\<lambda>e. P (agent_of_target (snd e))) es \<Longrightarrow> P (lastUa (scan sat u es m))"
proof (induction es arbitrary: m)
  case Nil
  then show ?case by simp
next
  case (Cons e es)
  have "P (lastUa (track u m e))"
    using lastUa_track[of u m e] Cons.prems by auto
  with Cons show ?case by simp
qed

lemma resolve_alias_ok: "agent_ok u \<Longrightarrow> agent_ok (resolve_alias sat u)"
proof (cases "aliases (family u)")
  case None
  assume "agent_ok u"
  with None show ?thesis by (simp add: resolve_alias_def)
next
  case (Some a)
  assume ok: "agent_ok u"
  have a: "alias_ok a" using Some by (rule aliases_ok)
  show ?thesis
  proof (cases a)
    case (Rename t)
    with Some a ok show ?thesis by (simp add: resolve_alias_def agent_ok_def)
  next
    case (Fixed b)
    with Some a show ?thesis by (simp add: resolve_alias_def)
  next
    case (VersionMap es)
    with a have "list_all (\<lambda>e. agent_ok (agent_of_target (snd e))) es" by simp
    with ok have "agent_ok (lastUa (scan sat u es (minDiff0 u)))"
      by (simp add: lastUa_scan[where P = agent_ok] minDiff0_def)
    with Some VersionMap show ?thesis by (simp add: resolve_alias_def resolve_version_map_def)
  next
    case (Computed f)
    with a show ?thesis by simp
  qed
qed

lemma full_resolution_ok: "agent_ok (full_resolution sat parse s)"
proof -
  have "agent_ok (parse s\<lparr>patch := ''0'', family := toLowerCase (family (parse s))\<rparr>)"
    by (simp add: agent_ok_def lowercase_def toLowerCase_idem)
  then show ?thesis
    unfolding full_resolution_def Let_def by (simp add: resolve_alias_ok)
qed

lemma cache_get_hit:
  "cache_ok c \<Longrightarrow> cache_get c k = (Some n, c1) \<Longrightarrow> entry_ok (k, n) \<and> cache_ok c1"
proof -
  assume ok: "cache_ok c" and g: "cache_get c k = (Some n, c1)"
  from g have m: "map_of c k = Some n" and c1: "c1 = (k, n) # filter (\<lambda>e. fst e \<noteq> k) c"
    by (auto simp add: cache_get_def split: option.splits)
  from m have "(k, n) \<in> set c" by (rule map_of_SomeD)
  with ok have e: "entry_ok (k, n)" by (simp add: cache_ok_def list_all_iff)
  from ok have "list_all entry_ok (filter (\<lambda>e. fst e \<noteq> k) c)"
    by (simp add: cache_ok_def list_all_iff)
  with e c1 show ?thesis by (simp add: cache_ok_def)
qed

lemma cache_get_miss: "cache_get c k = (None, c1) \<Longrightarrow> c1 = c"
  by (auto simp add: cache_get_def split: option.splits)

lemma cache_set_ok: "cache_ok c \<Longrightarrow> entry_ok (k, v) \<Longrightarrow> cache_ok (cache_set c k v)"
proof -
  assume ok: "cache_ok c" and e: "entry_ok (k, v)"
  have "list_all entry_ok ((k, v) # filter (\<lambda>e. fst e \<noteq> k) c)"
    using ok e by (simp add: cache_ok_def list_all_iff)
  then have "list_all entry_ok (take cache_max ((k, v) # filter (\<lambda>e. fst e \<noteq> k) c))"
    unfolding list_all_iff by (blast dest: in_set_takeD)
  then show ?thesis by (simp add: cache_set_def cache_ok_def)
qed

lemma agent_entry_ok: "agent_ok u \<Longrightarrow> entry_ok (k, family u, major u, Some (minor u), Some (patch u))"
  by (simp add: agent_ok_def entry_ok_def)

lemma entry_agent_ok: "entry_ok (k, n) \<Longrightarrow> agent_ok (agent_of_groups n)"
  by (cases n) (auto simp add: agent_ok_def entry_ok_def agent_of_groups_def Agent_def or0_def)


lemma UA_shape:
  "short_shape (take MAX_UA_LEN raw) = Some g \<Longrightarrow>
   UA sat parse c raw =
     \<lparr>ua = agent_of_groups g, cache_after = c, parser_calls = [], get_keys = [], set_keys = []\<rparr>"
  by (simp add: UA_def)

lemma UA_hit:
  "short_shape (take MAX_UA_LEN raw) = None \<Longrightarrow> cache_get c (take MAX_UA_LEN raw) = (Some n, c1) \<Longrightarrow>
   UA sat parse c raw =
     \<lparr>ua = agent_of_groups n, cache_after = c1, parser_calls = [],
      get_keys = [take MAX_UA_LEN raw], set_keys = []\<rparr>"
  by (simp add: UA_def)

lemma UA_miss:
  "short_shape (take MAX_UA_LEN raw) = None \<Longrightarrow> cache_get c (take MAX_UA_LEN raw) = (None, c1) \<Longrightarrow>
   UA sat parse c raw =
     \<lparr>ua = full_resolution sat parse (sanitize (take MAX_UA_LEN raw)),
      cache_after = cache_set c1 (sanitize (take MAX_UA_LEN raw))
        (family (full_resolution sat parse (sanitize (take MAX_UA_LEN raw))),
         major (full_resolution sat parse (sanitize (take MAX_UA_LEN raw))),
         Some (minor (full_resolution sat parse (sanitize (take MAX_UA_LEN raw)))),
         Some (patch (full_resolution sat parse (sanitize (take MAX_UA_LEN raw))))),
      parser_calls = [sanitize (take MAX_UA_LEN raw)],
      get_keys = [take MAX_UA_LEN raw],
      set_keys = [sanitize (take MAX_UA_LEN raw)]\<rparr>"
  by (simp add: UA_def Let_def)

lemma UA_cases:
  obtains (shape) g where "short_shape (take MAX_UA_LEN raw) = Some g"
  | (hit) n c1 where "short_shape (take MAX_UA_LEN raw) = None"
      and "cache_get c (take MAX_UA_LEN raw) = (Some n, c1)"
  | (miss) c1 where "short_shape (take MAX_UA_LEN raw) = None"
      and "cache_get c (take MAX_UA_LEN raw) = (None, c1)"
proof (cases "short_shape (take MAX_UA_LEN raw)")
  case None
  obtain x c1 where g: "cache_get c (take MAX_UA_LEN raw) = (x, c1)"
    by (cases "cache_get c (take MAX_UA_LEN raw)")
  show ?thesis
  proof (cases x)
    case None
    with g \<open>short_shape (take MAX_UA_LEN raw) = None\<close> show ?thesis by (intro miss) simp_all
  next
    case (Some n)
    with g \<open>short_shape (take MAX_UA_LEN raw) = None\<close> show ?thesis by (intro hit) simp_all
  qed
next
  case (Some g)
  then show ?thesis by (rule shape)
qed

lemma UA_cache_ok: "cache_ok c \<Longrightarrow> cache_ok (cache_after (UA sat parse c raw))"
proof (cases rule: UA_cases[where raw = raw and c = c])
  case (shape g)
  assume "cache_ok c"
  with shape show ?thesis by (simp add: UA_shape)
next
  case (hit n c1)
  assume "cache_ok c"
  with hit show ?thesis by (simp add: UA_hit cache_get_hit)
next
  case (miss c1)
  assume ok: "cache_ok c"
  from miss(2) have "c1 = c" by (rule cache_get_miss)
  with ok miss show ?thesis
    by (simp add: UA_miss cache_set_ok agent_entry_ok full_resolution_ok)
qed

lemma cache_after_all_snoc:
  "cache_after_all sat parse (ss @ [s]) = cache_after (UA sat parse (cache_after_all sat parse ss) s)"
  by (simp add: cache_after_all_def)

lemma cache_after_all_ok: "cache_ok (cache_after_all sat parse ss)"
proof (induction ss rule: rev_induct)
  case Nil
  show ?case by (simp add: cache_after_all_def cache_ok_def)
next
  case (snoc s ss)
  then show ?case by (simp add: cache_after_all_snoc UA_cache_ok)
qed

lemma UA_agent_ok:
  "cache_ok c \<Longrightarrow> short_shape (take MAX_UA_LEN raw) = None \<Longrightarrow> agent_ok (ua (UA sat parse c raw))"
proof (cases rule: UA_cases[where raw = raw and c = c])
  case (shape g)
  assume "short_shape (take MAX_UA_LEN raw) = None"
  with shape show ?thesis by simp
next
  case (hit n c1)
  assume "cache_ok c"
  with hit show ?thesis using cache_get_hit[of c "take MAX_UA_LEN raw" n c1]
    by (simp add: UA_hit entry_agent_ok[of "take MAX_UA_LEN raw"])
next
  case (miss c1)
  then show ?thesis by (simp add: UA_miss full_resolution_ok)
qed

lemma version_ends_in_zero: "patch u = ''0'' \<Longrightarrow> suffix ''.0'' (getVersion u)"
  by (simp add: getVersion_def toVersion_def suffix_def)

subsection \<open>Patch zeroing\<close>

text \<open>
  C3 as stated fails at the input \<^verbatim>\<open>"chrome/1.2.3"\<close>: the shape shortcut keeps
  the captured patch, and \<^verbatim>\<open>getVersion()\<close> is \<^verbatim>\<open>"1.2.3"\<close>.
\<close>

theorem getVersion_shape_shortcut_keeps_patch:
  "\<not> suffix ''.0'' (getVersion (ua (UA sat_never parse_nothing [] ''chrome/1.2.3'')))"
  by code_simp

text \<open>
  C3, amended.  In a process that has classified any strings \<open>ss\<close> before: when the
  truncated input is not answered by the shape shortcut, the patch of the classified record
  is 0 and \<^verbatim>\<open>getVersion()\<close> ends in \<^verbatim>\<open>".0"\<close>, be the record rebuilt
  from the cache or freshly resolved; a record of the shape shortcut has the captured patch,
  0 when the input has none; and every tuple of the cache has patch 0.
\<close>

theorem patch_zero_off_the_shape_shortcut:
  "(short_shape (take MAX_UA_LEN raw) = None \<longrightarrow>
      patch (ua (UA sat parse (cache_after_all sat parse ss) raw)) = ''0''
      \<and> suffix ''.0'' (getVersion (ua (UA sat parse (cache_after_all sat parse ss) raw))))
   \<and> (\<forall>f ma mi pa. short_shape (take MAX_UA_LEN raw) = Some (f, ma, mi, pa) \<longrightarrow>
      patch (ua (UA sat parse (cache_after_all sat parse ss) raw)) = or0 pa)
   \<and> list_all (\<lambda>e. snd (snd (snd (snd e))) = Some ''0'')
        (cache_after (UA sat parse (cache_after_all sat parse ss) raw))"
proof (intro conjI impI allI)
  assume "short_shape (take MAX_UA_LEN raw) = None"
  then have "agent_ok (ua (UA sat parse (cache_after_all sat parse ss) raw))"
    by (simp add: UA_agent_ok cache_after_all_ok)
  then show p: "patch (ua (UA sat parse (cache_after_all sat parse ss) raw)) = ''0''"
    by (simp add: agent_ok_def)
  then show "suffix ''.0'' (getVersion (ua (UA sat parse (cache_after_all sat parse ss) raw)))"
    by (rule version_ends_in_zero)
next
  fix f ma mi pa
  assume "short_shape (take MAX_UA_LEN raw) = Some (f, ma, mi, pa)"
  then show "patch (ua (UA sat parse (cache_after_all sat parse ss) raw)) = or0 pa"
    by (simp add: UA_shape agent_of_groups_def Agent_def)
next
  have "cache_ok (cache_after (UA sat parse (cache_after_all sat parse ss) raw))"
    by (simp add: UA_cache_ok cache_after_all_ok)
  then show "list_all (\<lambda>e. snd (snd (snd (snd e))) = Some ''0'')
        (cache_after (UA sat parse (cache_after_all sat parse ss) raw))"
    by (auto simp add: cache_ok_def list_all_iff entry_ok_def)
qed

text \<open>
  The string \<^verbatim>\<open>"???"\<close> classified a second time (a cache hit), and
  \<^verbatim>\<open>"chrome/1.2.3"\<close> in a fresh process.
\<close>

lemma take_qqq: "take MAX_UA_LEN ''???'' = ''???''"
  by (simp add: MAX_UA_LEN_def)

lemma short_shape_qqq: "short_shape ''???'' = None"
  by code_simp

lemma take_chrome123: "take MAX_UA_LEN ''chrome/1.2.3'' = ''chrome/1.2.3''"
  by (simp add: MAX_UA_LEN_def)

lemma short_shape_chrome123: "short_shape ''chrome/1.2.3'' = Some (''chrome'', ''1'', Some ''2'', Some ''3'')"
  by code_simp

theorem patch_zero_off_the_shape_shortcut_witness:
  "short_shape (take MAX_UA_LEN ''???'') = None
   \<and> patch (ua (UA sat_never parse_nothing (cache_after_all sat_never parse_nothing [''???'']) ''???'')) = ''0''
   \<and> suffix ''.0'' (getVersion (ua (UA sat_never parse_nothing (cache_after_all sat_never parse_nothing [''???'']) ''???'')))
   \<and> short_shape (take MAX_UA_LEN ''chrome/1.2.3'') = Some (''chrome'', ''1'', Some ''2'', Some ''3'')
   \<and> patch (ua (UA sat_never parse_nothing (cache_after_all sat_never parse_nothing []) ''chrome/1.2.3'')) = ''3''"
  using patch_zero_off_the_shape_shortcut[of "''???''" sat_never parse_nothing "[''???'']"]
    patch_zero_off_the_shape_shortcut[of "''chrome/1.2.3''" sat_never parse_nothing "[]"]
  by (simp add: take_qqq short_shape_qqq take_chrome123 short_shape_chrome123 or0_def)

subsection \<open>The shape test and the sanitizer\<close>














subsection \<open>The VersionMap rule\<close>

lemma scan_exact:
  "find (\<lambda>e. sat u (Some (fst e))) es = Some e \<Longrightarrow> lastUa (scan sat u es m) = agent_of_target (snd e)"
  by (induction es arbitrary: m) (auto split: if_splits)

lemma scan_no_exact:
  "find (\<lambda>e. sat u (Some (fst e))) es = None \<Longrightarrow> scan sat u es m = foldl (track u) m es"
  by (induction es arbitrary: m) (auto split: if_splits)

lemma foldl_digits:
  "foldl (\<lambda>n c. 10 * n + ((of_char c :: int) - 48)) a s = a * 10 ^ length s + digits_value s"
  by (induction s arbitrary: a) (simp_all add: algebra_simps)

lemma to_number_spec: "to_number s = spec_number s"
  by (simp add: to_number_def spec_number_def foldl_digits)

lemma split_dot_components:
  "split_dot s =
     takeWhile (\<lambda>c. c \<noteq> CHR ''.'') s #
       (case dropWhile (\<lambda>c. c \<noteq> CHR ''.'') s of [] \<Rightarrow> [] | d # rest \<Rightarrow> split_dot rest)"
  by (induction s) (auto split: list.splits)

lemma first_component:
  "number_or0 (nth_opt (take 2 (split_dot e)) 0) = spec_number (spec_component1 e)"
  by (subst split_dot_components)
     (simp add: nth_opt_def spec_component1_def number_or0_def to_number_spec spec_number_def)

lemma second_component:
  "number_or0 (nth_opt (take 2 (split_dot e)) 1) = spec_number (spec_component2 e)"
proof (cases "dropWhile (\<lambda>c. c \<noteq> CHR ''.'') e")
  case Nil
  have "split_dot e = takeWhile (\<lambda>c. c \<noteq> CHR ''.'') e #
       (case dropWhile (\<lambda>c. c \<noteq> CHR ''.'') e of [] \<Rightarrow> [] | d # rest \<Rightarrow> split_dot rest)"
    by (rule split_dot_components)
  then have s: "split_dot e = [takeWhile (\<lambda>c. c \<noteq> CHR ''.'') e]"
    unfolding Nil by simp
  have "spec_component2 e = []"
    unfolding spec_component2_def Nil by simp
  with s show ?thesis
    by (simp add: nth_opt_def number_or0_def spec_number_def)
next
  case (Cons d rest)
  have "split_dot e = takeWhile (\<lambda>c. c \<noteq> CHR ''.'') e #
       (case dropWhile (\<lambda>c. c \<noteq> CHR ''.'') e of [] \<Rightarrow> [] | d # rest \<Rightarrow> split_dot rest)"
    by (rule split_dot_components)
  then have "split_dot e = takeWhile (\<lambda>c. c \<noteq> CHR ''.'') e # split_dot rest"
    unfolding Cons by simp
  moreover have "split_dot rest = takeWhile (\<lambda>c. c \<noteq> CHR ''.'') rest #
       (case dropWhile (\<lambda>c. c \<noteq> CHR ''.'') rest of [] \<Rightarrow> [] | d # r \<Rightarrow> split_dot r)"
    by (rule split_dot_components)
  ultimately have "nth_opt (take 2 (split_dot e)) 1 = Some (takeWhile (\<lambda>c. c \<noteq> CHR ''.'') rest)"
    by (simp add: nth_opt_def numeral_2_eq_2)
  moreover have "spec_component2 e = takeWhile (\<lambda>c. c \<noteq> CHR ''.'') rest"
    unfolding spec_component2_def Cons by simp
  ultimately show ?thesis
    by (simp add: number_or0_def to_number_spec spec_number_def)
qed

lemma curr_major_spec: "curr_major u e = spec_major_diff u e"
  unfolding curr_major_def spec_major_diff_def spec_diff_def abs_diff_def first_component
    to_number_spec
  by (rule refl)

lemma curr_minor_spec: "curr_minor u e = spec_minor_diff u e"
  unfolding curr_minor_def spec_minor_diff_def spec_diff_def abs_diff_def second_component
    to_number_spec
  by (rule refl)

lemma spec_best_major_Suc:
  "i < length es \<Longrightarrow>
   spec_best_major u es (Suc i) =
     (case spec_major_diff u (fst (es ! i)) of
        None \<Rightarrow> spec_best_major u es i
      | Some d \<Rightarrow> min (spec_best_major u es i) d)"
  unfolding spec_best_major_def by (simp add: take_Suc_conv_app_nth)

lemma track_spec_prefix:
  "i \<le> length es \<Longrightarrow>
   foldl (track u) (minDiff0 u) (take i es) =
     \<lparr>d_major = spec_best_major u es i, d_minor = spec_best_minor u es i,
      lastUa = spec_candidate u es i\<rparr>"
proof (induction i)
  case 0
  show ?case by (simp add: minDiff0_def spec_best_major_def)
next
  case (Suc i)
  then have i: "i < length es" and
    ih: "foldl (track u) (minDiff0 u) (take i es) =
     \<lparr>d_major = spec_best_major u es i, d_minor = spec_best_minor u es i,
      lastUa = spec_candidate u es i\<rparr>"
    by simp_all
  have "foldl (track u) (minDiff0 u) (take (Suc i) es) =
      track u \<lparr>d_major = spec_best_major u es i, d_minor = spec_best_minor u es i,
      lastUa = spec_candidate u es i\<rparr> (es ! i)"
    using i ih by (simp add: take_Suc_conv_app_nth)
  also have "\<dots> = \<lparr>d_major = spec_best_major u es (Suc i), d_minor = spec_best_minor u es (Suc i),
      lastUa = spec_candidate u es (Suc i)\<rparr>"
    using i
    by (simp add: track_def curr_major_spec curr_minor_spec spec_best_major_Suc spec_within_def
        spec_replaces_def min_def split: option.splits)
  finally show ?case .
qed

text \<open>
  C4: the loop of lines 260 to 291 computes what the specification describes, for every
  range test, detected record and entry list.  The first entry whose expression the
  detected version satisfies is adopted and nothing after it is looked at; without such an
  entry the best candidate of the scan is adopted, where an entry replaces the candidate when
  its \<open>majorDiff\<close> is at most the least \<open>majorDiff\<close> before it and its \<open>minorDiff\<close> is at
  most the least \<open>minorDiff\<close> of the earlier entries that met the first condition (so that
  of two entries with equal differences the later one wins); an empty table gives back the
  detected record.  The two differences the loop computes for an expression are the absolute
  differences between the detected major and minor version and the first and the second
  dot-separated component of the expression, a missing or empty component counting as 0.
\<close>

theorem version_map_refines_spec:
  "resolve_version_map sat u es = version_map_spec sat u es
   \<and> (\<forall>e. find (\<lambda>e. sat u (Some (fst e))) es = Some e \<longrightarrow>
         resolve_version_map sat u es = agent_of_target (snd e))
   \<and> resolve_version_map sat u [] = u
   \<and> curr_major u x = spec_major_diff u x
   \<and> curr_minor u x = spec_minor_diff u x"
proof (intro conjI allI impI)
  show "resolve_version_map sat u es = version_map_spec sat u es"
  proof (cases "find (\<lambda>e. sat u (Some (fst e))) es")
    case None
    then show ?thesis
      using track_spec_prefix[of "length es" es u]
      by (simp add: resolve_version_map_def version_map_spec_def spec_first_exact_def scan_no_exact)
  next
    case (Some e)
    then show ?thesis
      by (simp add: resolve_version_map_def version_map_spec_def spec_first_exact_def scan_exact)
  qed
next
  fix e
  assume "find (\<lambda>e. sat u (Some (fst e))) es = Some e"
  then show "resolve_version_map sat u es = agent_of_target (snd e)"
    by (simp add: resolve_version_map_def scan_exact)
next
  show "resolve_version_map sat u [] = u"
    by (simp add: resolve_version_map_def minDiff0_def)
next
  show "curr_major u x = spec_major_diff u x" by (rule curr_major_spec)
next
  show "curr_minor u x = spec_minor_diff u x" by (rule curr_minor_spec)
qed

text \<open>
  Opera 30 with a range test that recognises the key \<^verbatim>\<open>"30"\<close>; the example of the
  specification, entries \<^verbatim>\<open>16.1\<close> and \<^verbatim>\<open>15.1\<close> with detected version 15.9 and
  no exact match; an empty table; the differences of 15.9 to \<^verbatim>\<open>16.1\<close>, and those of
  9.5 to \<^verbatim>\<open>10\<close>, which has no second component.
\<close>

lemma find_opera30:
  "find (\<lambda>e. sat_major (Agent ''opera'' ''30'' ''0'' ''0'') (Some (fst e))) opera_map
     = Some (''30'', arr2 ''chrome'' ''43'')"
  by code_simp

lemma spec_yandex159:
  "version_map_spec sat_never (Agent ''yandex browser'' ''15'' ''9'' ''0'') [(''16.1'', arr2 ''a'' ''1''), (''15.1'', arr2 ''b'' ''2'')]
     = Agent ''b'' ''2'' ''0'' ''0''"
  by code_simp

lemma spec_diffs_159:
  "spec_major_diff (Agent ''yandex browser'' ''15'' ''9'' ''0'') ''16.1'' = Some 1
   \<and> spec_minor_diff (Agent ''yandex browser'' ''15'' ''9'' ''0'') ''16.1'' = Some 8"
  by code_simp

lemma spec_diffs_95:
  "spec_major_diff (Agent ''uc browser'' ''9'' ''5'' ''0'') ''10'' = Some 1
   \<and> spec_minor_diff (Agent ''uc browser'' ''9'' ''5'' ''0'') ''10'' = Some 5"
  by code_simp

theorem version_map_refines_spec_witness:
  "resolve_version_map sat_major (Agent ''opera'' ''30'' ''0'' ''0'') opera_map = Agent ''chrome'' ''43'' ''0'' ''0''
   \<and> resolve_version_map sat_never (Agent ''yandex browser'' ''15'' ''9'' ''0'')
        [(''16.1'', arr2 ''a'' ''1''), (''15.1'', arr2 ''b'' ''2'')] = Agent ''b'' ''2'' ''0'' ''0''
   \<and> resolve_version_map sat_never (Agent ''opera'' ''30'' ''0'' ''0'') [] = Agent ''opera'' ''30'' ''0'' ''0''
   \<and> curr_major (Agent ''yandex browser'' ''15'' ''9'' ''0'') ''16.1'' = Some 1
   \<and> curr_minor (Agent ''yandex browser'' ''15'' ''9'' ''0'') ''16.1'' = Some 8
   \<and> curr_major (Agent ''uc browser'' ''9'' ''5'' ''0'') ''10'' = Some 1
   \<and> curr_minor (Agent ''uc browser'' ''9'' ''5'' ''0'') ''10'' = Some 5"
proof (intro conjI)
  have "\<forall>e. find (\<lambda>e. sat_major (Agent ''opera'' ''30'' ''0'' ''0'') (Some (fst e))) opera_map = Some e \<longrightarrow>
      resolve_version_map sat_major (Agent ''opera'' ''30'' ''0'' ''0'') opera_map = agent_of_target (snd e)"
    using version_map_refines_spec[of sat_major "Agent ''opera'' ''30'' ''0'' ''0''" opera_map]
    by (rule conjunct1[OF conjunct2])
  with find_opera30
  have "resolve_version_map sat_major (Agent ''opera'' ''30'' ''0'' ''0'') opera_map
      = agent_of_target (snd (''30'', arr2 ''chrome'' ''43''))"
    by blast
  then show "resolve_version_map sat_major (Agent ''opera'' ''30'' ''0'' ''0'') opera_map
      = Agent ''chrome'' ''43'' ''0'' ''0''"
    by (simp add: agent_of_target_def arr2_def or0_def)
next
  have "resolve_version_map sat_never (Agent ''yandex browser'' ''15'' ''9'' ''0'')
        [(''16.1'', arr2 ''a'' ''1''), (''15.1'', arr2 ''b'' ''2'')]
      = version_map_spec sat_never (Agent ''yandex browser'' ''15'' ''9'' ''0'')
        [(''16.1'', arr2 ''a'' ''1''), (''15.1'', arr2 ''b'' ''2'')]"
    using version_map_refines_spec[of sat_never "Agent ''yandex browser'' ''15'' ''9'' ''0''"
      "[(''16.1'', arr2 ''a'' ''1''), (''15.1'', arr2 ''b'' ''2'')]"]
    by (rule conjunct1)
  with spec_yandex159
  show "resolve_version_map sat_never (Agent ''yandex browser'' ''15'' ''9'' ''0'')
        [(''16.1'', arr2 ''a'' ''1''), (''15.1'', arr2 ''b'' ''2'')] = Agent ''b'' ''2'' ''0'' ''0''"
    by simp
next
  show "resolve_version_map sat_never (Agent ''opera'' ''30'' ''0'' ''0'') [] = Agent ''opera'' ''30'' ''0'' ''0''"
    using version_map_refines_spec[of sat_never "Agent ''opera'' ''30'' ''0'' ''0''" "[]"]
    by (rule conjunct2[OF conjunct2, THEN conjunct1])
next
  note d = version_map_refines_spec[of sat_never "Agent ''yandex browser'' ''15'' ''9'' ''0''" "[]" "''16.1''"]
  show "curr_major (Agent ''yandex browser'' ''15'' ''9'' ''0'') ''16.1'' = Some 1"
    using d[THEN conjunct2, THEN conjunct2, THEN conjunct2, THEN conjunct1] spec_diffs_159 by simp
  show "curr_minor (Agent ''yandex browser'' ''15'' ''9'' ''0'') ''16.1'' = Some 8"
    using d[THEN conjunct2, THEN conjunct2, THEN conjunct2, THEN conjunct2] spec_diffs_159 by simp
next
  note d = version_map_refines_spec[of sat_never "Agent ''uc browser'' ''9'' ''5'' ''0''" "[]" "''10''"]
  show "curr_major (Agent ''uc browser'' ''9'' ''5'' ''0'') ''10'' = Some 1"
    using d[THEN conjunct2, THEN conjunct2, THEN conjunct2, THEN conjunct1] spec_diffs_95 by simp
  show "curr_minor (Agent ''uc browser'' ''9'' ''5'' ''0'') ''10'' = Some 5"
    using d[THEN conjunct2, THEN conjunct2, THEN conjunct2, THEN conjunct2] spec_diffs_95 by simp
qed

subsection \<open>The tracked differences of the nearest-match scan\<close>

lemma yandex_17_12_scan:
  "d_minor (scan sat_never yandex_17_12 yandex_map (minDiff0 yandex_17_12)) = 1
   \<and> d_major (scan sat_never yandex_17_12 yandex_map (minDiff0 yandex_17_12)) = 0"
  by code_simp

lemma yandex_17_12_entry:
  "(''15.12'', arr2 ''chrome'' ''46'') \<in> set yandex_map
   \<and> curr_minor yandex_17_12 ''15.12'' = Some 0
   \<and> curr_major yandex_17_12 ''15.12'' = Some 2"
  by code_simp

text \<open>
  C9 as stated fails in its first sentence.  Yandex Browser 17.12 has no exact entry; after
  the scan of the whole table the tracked minor-diff is 1, although the scanned entry
  \<^verbatim>\<open>"15.12"\<close> has minor-diff 0: its major-diff, 2, was above the tracked major-diff
  when it was scanned, so it was not compared at all.  The tracked minor-diff is therefore
  not the minimum over all entries scanned.
\<close>

theorem tracked_minor_not_least_of_all_scanned:
  "d_minor (scan sat_never yandex_17_12 yandex_map (minDiff0 yandex_17_12)) = 1
   \<and> (''15.12'', arr2 ''chrome'' ''46'') \<in> set yandex_map
   \<and> curr_minor yandex_17_12 ''15.12'' = Some 0"
  using yandex_17_12_scan yandex_17_12_entry by simp

text \<open>One step of the scan, for an entry that is not an exact match.\<close>

lemma track_major:
  "d_major (track u m e) =
     (case curr_major u (fst e) of None \<Rightarrow> d_major m | Some a \<Rightarrow> min (d_major m) a)"
  by (simp add: track_def min_def split: option.splits)

lemma track_minor:
  "d_minor (track u m e) =
     (case curr_major u (fst e) of
        None \<Rightarrow> d_minor m
      | Some a \<Rightarrow>
          if a \<le> d_major m
          then (case curr_minor u (fst e) of None \<Rightarrow> d_minor m | Some b \<Rightarrow> min (d_minor m) b)
          else d_minor m)"
  by (simp add: track_def min_def split: option.splits)

lemma track_adopts:
  "curr_major u (fst e) = Some a \<Longrightarrow> a \<le> d_major m \<Longrightarrow> curr_minor u (fst e) = Some b \<Longrightarrow>
   b \<le> d_minor m \<Longrightarrow>
   track u m e = \<lparr>d_major = a, d_minor = b, lastUa = agent_of_target (snd e)\<rparr>"
  by (simp add: track_def)

lemma track_never_raises:
  "d_minor (track u m e) \<le> d_minor m \<and> d_major (track u m e) \<le> d_major m"
  by (simp add: track_def split: option.splits)

lemma track_changes_only_within:
  "d_minor (track u m e) \<noteq> d_minor m \<or> lastUa (track u m e) \<noteq> lastUa m \<Longrightarrow>
   \<exists>a b. curr_major u (fst e) = Some a \<and> a \<le> d_major m
     \<and> curr_minor u (fst e) = Some b \<and> b \<le> d_minor m"
  by (auto simp add: track_def split: option.splits if_splits)

lemma track_lowers_major_only:
  "curr_major u (fst e) = Some a \<Longrightarrow> a < d_major m \<Longrightarrow> curr_minor u (fst e) = Some b \<Longrightarrow>
   d_minor m < b \<Longrightarrow>
   track u m e = m\<lparr>d_major := a\<rparr>"
  by (simp add: track_def)

text \<open>
  The tracked differences in closed form.  After the first \<open>n\<close> entries, none an exact
  match, the tracked major-diff is the least of \<^verbatim>\<open>MAX_SAFE_INTEGER\<close> and the
  major-diffs of these entries, and the tracked minor-diff is the least of
  \<^verbatim>\<open>MAX_SAFE_INTEGER\<close> and the minor-diffs of those of these entries whose
  major-diff was at most the major-diff tracked when they were scanned.
\<close>

lemma finite_indexed: "finite {a. \<exists>i<(n::nat). Q i a \<and> g i = Some a}"
proof (rule finite_subset)
  show "{a. \<exists>i<n. Q i a \<and> g i = Some a} \<subseteq> (\<lambda>i. the (g i)) ` {..<n}"
    by force
  show "finite ((\<lambda>i. the (g i)) ` {..<n})" by simp
qed

lemma Min_insert_bound:
  "finite A \<Longrightarrow> Min (insert (M::int) (A \<union> {b})) = min (Min (insert M A)) b"
proof -
  assume f: "finite A"
  have "insert M (A \<union> {b}) = insert b (insert M A)" by auto
  moreover have "Min (insert b (insert M A)) = min b (Min (insert M A))"
    by (rule Min_insert) (simp_all add: f)
  ultimately show ?thesis by (simp only: min.commute)
qed

lemma indexed_Suc: "{b. \<exists>i<Suc n. R i b} = {b. \<exists>i<n. R i b} \<union> {b. R n b}"
  by (auto simp add: less_Suc_eq)

lemma finite_majors: "finite {a. \<exists>i<n. curr_major u (fst (es ! i)) = Some a}"
  using finite_indexed[of n "\<lambda>i a. True" "\<lambda>i. curr_major u (fst (es ! i))"] by simp

lemma tracked_major_prefix:
  "n \<le> length es \<Longrightarrow>
   d_major (foldl (track u) (minDiff0 u) (take n es)) =
     Min (insert MAX_SAFE_INTEGER {a. \<exists>i<n. curr_major u (fst (es ! i)) = Some a})"
proof (induction n)
  case 0
  show ?case by (simp add: minDiff0_def)
next
  case (Suc n)
  let ?A = "{a. \<exists>i<n. curr_major u (fst (es ! i)) = Some a}"
  from Suc have n: "n < length es"
    and ih: "d_major (foldl (track u) (minDiff0 u) (take n es)) = Min (insert MAX_SAFE_INTEGER ?A)"
    by simp_all
  have step: "d_major (foldl (track u) (minDiff0 u) (take (Suc n) es)) =
      (case curr_major u (fst (es ! n)) of
         None \<Rightarrow> Min (insert MAX_SAFE_INTEGER ?A)
       | Some a \<Rightarrow> min (Min (insert MAX_SAFE_INTEGER ?A)) a)"
  proof -
    have e: "foldl (track u) (minDiff0 u) (take (Suc n) es) =
        track u (foldl (track u) (minDiff0 u) (take n es)) (es ! n)"
      using n by (simp add: take_Suc_conv_app_nth)
    show ?thesis unfolding e track_major ih by (rule refl)
  qed
  have split: "{a. \<exists>i<Suc n. curr_major u (fst (es ! i)) = Some a}
      = ?A \<union> {a. curr_major u (fst (es ! n)) = Some a}"
    by (rule indexed_Suc)
  show ?case
  proof (cases "curr_major u (fst (es ! n))")
    case None
    then have "{a. curr_major u (fst (es ! n)) = Some a} = {}" by simp
    with None show ?thesis unfolding step split by simp
  next
    case (Some a)
    then have "{a'. curr_major u (fst (es ! n)) = Some a'} = {a}" by auto
    with Some show ?thesis unfolding step split
      by (simp only: option.case Min_insert_bound[OF finite_majors])
  qed
qed

lemma tracked_major_ge:
  assumes "i \<le> length es"
  shows "a \<le> d_major (foldl (track u) (minDiff0 u) (take i es)) \<longleftrightarrow>
     a \<le> MAX_SAFE_INTEGER \<and> (\<forall>j<i. \<forall>a'. curr_major u (fst (es ! j)) = Some a' \<longrightarrow> a \<le> a')"
proof -
  have f: "finite (insert MAX_SAFE_INTEGER {a'. \<exists>j<i. curr_major u (fst (es ! j)) = Some a'})"
    using finite_majors[of i u es] by simp
  have "a \<le> Min (insert MAX_SAFE_INTEGER {a'. \<exists>j<i. curr_major u (fst (es ! j)) = Some a'})
      \<longleftrightarrow> (\<forall>x \<in> insert MAX_SAFE_INTEGER {a'. \<exists>j<i. curr_major u (fst (es ! j)) = Some a'}. a \<le> x)"
    using f by (rule Min_ge_iff) simp
  also have "\<dots> \<longleftrightarrow> a \<le> MAX_SAFE_INTEGER \<and> (\<forall>j<i. \<forall>a'. curr_major u (fst (es ! j)) = Some a' \<longrightarrow> a \<le> a')"
    by blast
  finally show ?thesis
    unfolding tracked_major_prefix[OF assms] .
qed

lemma finite_minors:
  "finite {b. \<exists>i<n. \<exists>a. curr_major u (fst (es ! i)) = Some a
         \<and> a \<le> d_major (foldl (track u) (minDiff0 u) (take i es))
         \<and> curr_minor u (fst (es ! i)) = Some b}"
proof (rule finite_subset)
  show "{b. \<exists>i<n. \<exists>a. curr_major u (fst (es ! i)) = Some a
         \<and> a \<le> d_major (foldl (track u) (minDiff0 u) (take i es))
         \<and> curr_minor u (fst (es ! i)) = Some b}
      \<subseteq> (\<lambda>i. the (curr_minor u (fst (es ! i)))) ` {..<n}"
    by force
  show "finite ((\<lambda>i. the (curr_minor u (fst (es ! i)))) ` {..<n})" by simp
qed

lemma tracked_minor_prefix:
  "n \<le> length es \<Longrightarrow>
   d_minor (foldl (track u) (minDiff0 u) (take n es)) =
     Min (insert MAX_SAFE_INTEGER
       {b. \<exists>i<n. \<exists>a. curr_major u (fst (es ! i)) = Some a
         \<and> a \<le> d_major (foldl (track u) (minDiff0 u) (take i es))
         \<and> curr_minor u (fst (es ! i)) = Some b})"
proof (induction n)
  case 0
  show ?case by (simp add: minDiff0_def)
next
  case (Suc n)
  let ?B = "{b. \<exists>i<n. \<exists>a. curr_major u (fst (es ! i)) = Some a
         \<and> a \<le> d_major (foldl (track u) (minDiff0 u) (take i es))
         \<and> curr_minor u (fst (es ! i)) = Some b}"
  let ?D = "d_major (foldl (track u) (minDiff0 u) (take n es))"
  from Suc have n: "n < length es"
    and ih: "d_minor (foldl (track u) (minDiff0 u) (take n es)) = Min (insert MAX_SAFE_INTEGER ?B)"
    by simp_all
  have step: "d_minor (foldl (track u) (minDiff0 u) (take (Suc n) es)) =
      (case curr_major u (fst (es ! n)) of
         None \<Rightarrow> Min (insert MAX_SAFE_INTEGER ?B)
       | Some a \<Rightarrow>
           if a \<le> ?D
           then (case curr_minor u (fst (es ! n)) of
                   None \<Rightarrow> Min (insert MAX_SAFE_INTEGER ?B)
                 | Some b \<Rightarrow> min (Min (insert MAX_SAFE_INTEGER ?B)) b)
           else Min (insert MAX_SAFE_INTEGER ?B))"
  proof -
    have e: "foldl (track u) (minDiff0 u) (take (Suc n) es) =
        track u (foldl (track u) (minDiff0 u) (take n es)) (es ! n)"
      using n by (simp add: take_Suc_conv_app_nth)
    show ?thesis unfolding e track_minor ih by (rule refl)
  qed
  have split: "{b. \<exists>i<Suc n. \<exists>a. curr_major u (fst (es ! i)) = Some a
         \<and> a \<le> d_major (foldl (track u) (minDiff0 u) (take i es))
         \<and> curr_minor u (fst (es ! i)) = Some b}
      = ?B \<union> {b. \<exists>a. curr_major u (fst (es ! n)) = Some a \<and> a \<le> ?D
                \<and> curr_minor u (fst (es ! n)) = Some b}"
    by (rule indexed_Suc)
  consider (adopt) a b where "curr_major u (fst (es ! n)) = Some a" "a \<le> ?D"
      "curr_minor u (fst (es ! n)) = Some b"
    | (skip) "{b. \<exists>a. curr_major u (fst (es ! n)) = Some a \<and> a \<le> ?D
                \<and> curr_minor u (fst (es ! n)) = Some b} = {}"
    by blast
  then show ?case
  proof cases
    case adopt
    then have "{b'. \<exists>a. curr_major u (fst (es ! n)) = Some a \<and> a \<le> ?D
                \<and> curr_minor u (fst (es ! n)) = Some b'} = {b}"
      by auto
    with adopt show ?thesis unfolding step split
      by (simp only: option.case if_True Min_insert_bound[OF finite_minors])
  next
    case skip
    have "(case curr_major u (fst (es ! n)) of
         None \<Rightarrow> Min (insert MAX_SAFE_INTEGER ?B)
       | Some a \<Rightarrow>
           if a \<le> ?D
           then (case curr_minor u (fst (es ! n)) of
                   None \<Rightarrow> Min (insert MAX_SAFE_INTEGER ?B)
                 | Some b \<Rightarrow> min (Min (insert MAX_SAFE_INTEGER ?B)) b)
           else Min (insert MAX_SAFE_INTEGER ?B)) = Min (insert MAX_SAFE_INTEGER ?B)"
      using skip by (auto split: option.splits simp del: Min_insert)
    then show ?thesis unfolding step split skip by simp
  qed
qed

lemma tracked_minor_closed:
  "d_minor (foldl (track u) (minDiff0 u) es) =
     Min (insert MAX_SAFE_INTEGER
       {b. \<exists>i<length es. \<exists>a. curr_major u (fst (es ! i)) = Some a
         \<and> a \<le> MAX_SAFE_INTEGER
         \<and> (\<forall>j<i. \<forall>a'. curr_major u (fst (es ! j)) = Some a' \<longrightarrow> a \<le> a')
         \<and> curr_minor u (fst (es ! i)) = Some b})"
proof -
  have "\<And>i a. i < length es \<Longrightarrow>
      a \<le> d_major (foldl (track u) (minDiff0 u) (take i es)) \<longleftrightarrow>
      a \<le> MAX_SAFE_INTEGER \<and> (\<forall>j<i. \<forall>a'. curr_major u (fst (es ! j)) = Some a' \<longrightarrow> a \<le> a')"
    by (rule tracked_major_ge) simp
  then have "{b. \<exists>i<length es. \<exists>a. curr_major u (fst (es ! i)) = Some a
         \<and> a \<le> d_major (foldl (track u) (minDiff0 u) (take i es))
         \<and> curr_minor u (fst (es ! i)) = Some b}
     = {b. \<exists>i<length es. \<exists>a. curr_major u (fst (es ! i)) = Some a
         \<and> (a \<le> MAX_SAFE_INTEGER
         \<and> (\<forall>j<i. \<forall>a'. curr_major u (fst (es ! j)) = Some a' \<longrightarrow> a \<le> a'))
         \<and> curr_minor u (fst (es ! i)) = Some b}"
    by (simp cong: conj_cong)
  then show ?thesis
    using tracked_minor_prefix[of "length es" es u] by (simp only: take_all order_refl conj_assoc)
qed


lemma tracked_major_closed:
  "d_major (foldl (track u) (minDiff0 u) es) =
     Min (insert MAX_SAFE_INTEGER {a. \<exists>i<length es. curr_major u (fst (es ! i)) = Some a})"
  using tracked_major_prefix[of "length es" es u] by simp

lemma yandex_14_1_before:
  "scan sat_never yandex_14_1 (take 42 yandex_map) (minDiff0 yandex_14_1) =
     \<lparr>d_major = 1, d_minor = 0, lastUa = Agent ''chrome'' ''40'' ''0'' ''0''\<rparr>"
  by code_simp

lemma yandex_14_1_entries:
  "yandex_map ! 41 = (''15.1'', arr2 ''chrome'' ''40'')
   \<and> yandex_map ! 42 = (''14.10'', arr2 ''chrome'' ''37'')
   \<and> (''14.2'', arr2 ''chrome'' ''32'') \<in> set yandex_map"
  by code_simp

lemma yandex_14_1_diffs:
  "curr_major yandex_14_1 ''14.10'' = Some 0 \<and> curr_minor yandex_14_1 ''14.10'' = Some 9
   \<and> curr_major yandex_14_1 ''15.1'' = Some 1 \<and> curr_major yandex_14_1 ''14.2'' = Some 0"
  by code_simp

lemma yandex_14_1_resolved:
  "resolve_version_map sat_never yandex_14_1 yandex_map = Agent ''chrome'' ''40'' ''0'' ''0''"
  by code_simp

lemma target_chrome40: "agent_of_target (arr2 ''chrome'' ''40'') = Agent ''chrome'' ''40'' ''0'' ''0''"
  by (simp add: agent_of_target_def arr2_def or0_def)

lemma target_chrome37: "agent_of_target (arr2 ''chrome'' ''37'') = Agent ''chrome'' ''37'' ''0'' ''0''"
  by (simp add: agent_of_target_def arr2_def or0_def)

text \<open>
  C9, amended.  One step of the scan, for an entry that is no exact match, does this and
  nothing else.  An entry whose major-diff is at most the tracked major-diff and whose
  minor-diff is at most the tracked minor-diff is adopted: both differences become the tracked
  ones and its target the candidate.  No other entry changes the tracked minor-diff or the
  candidate.  The tracked major-diff becomes the lesser of itself and the major-diff of the
  entry, whatever the minor-diff.  So no step raises a tracked difference, the minor-diff is
  never reset, also not by a step that lowers the major-diff, and an entry with a strictly
  smaller major-diff and a larger minor-diff lowers the tracked major-diff and leaves
  minor-diff and candidate as they are.  Over a scan without exact match the tracked major-diff
  is the least of \<^verbatim>\<open>MAX_SAFE_INTEGER\<close> and the major-diffs of all entries, and
  the tracked minor-diff is the least of \<^verbatim>\<open>MAX_SAFE_INTEGER\<close> and the minor-diffs
  of those entries whose major-diff is at most \<^verbatim>\<open>MAX_SAFE_INTEGER\<close> and at most
  the major-diff of every entry before them: a running minimum over these entries and not over
  all.  On the table this happens for Yandex Browser 14.1: after 42 entries the state is
  major-diff 1, minor-diff 0, candidate Chrome 40; the entry \<^verbatim>\<open>"14.10"\<close>
  (differences 0 and 9) lowers the major-diff to 0 and is not adopted; the scan ends with the
  target of \<^verbatim>\<open>"15.1"\<close>, major-diff 1, although \<^verbatim>\<open>"14.2"\<close> has
  major-diff 0.
\<close>

theorem tracked_minor_never_reset:
  "(\<forall>a b. curr_major u (fst e) = Some a \<and> a \<le> d_major m
          \<and> curr_minor u (fst e) = Some b \<and> b \<le> d_minor m \<longrightarrow>
      track u m e = \<lparr>d_major = a, d_minor = b, lastUa = agent_of_target (snd e)\<rparr>)
   \<and> (d_minor (track u m e) \<noteq> d_minor m \<or> lastUa (track u m e) \<noteq> lastUa m \<longrightarrow>
        (\<exists>a b. curr_major u (fst e) = Some a \<and> a \<le> d_major m
           \<and> curr_minor u (fst e) = Some b \<and> b \<le> d_minor m))
   \<and> d_major (track u m e) =
        (case curr_major u (fst e) of None \<Rightarrow> d_major m | Some a \<Rightarrow> min (d_major m) a)
   \<and> d_minor (track u m e) \<le> d_minor m \<and> d_major (track u m e) \<le> d_major m
   \<and> (\<forall>a b. curr_major u (fst e) = Some a \<and> a < d_major m
           \<and> curr_minor u (fst e) = Some b \<and> d_minor m < b \<longrightarrow>
        track u m e = m\<lparr>d_major := a\<rparr>)
   \<and> (find (\<lambda>e. sat u (Some (fst e))) es = None \<longrightarrow>
        d_major (scan sat u es (minDiff0 u)) =
          Min (insert MAX_SAFE_INTEGER {a. \<exists>i<length es. curr_major u (fst (es ! i)) = Some a})
        \<and> d_minor (scan sat u es (minDiff0 u)) =
          Min (insert MAX_SAFE_INTEGER
            {b. \<exists>i<length es. \<exists>a. curr_major u (fst (es ! i)) = Some a
              \<and> a \<le> MAX_SAFE_INTEGER
              \<and> (\<forall>j<i. \<forall>a'. curr_major u (fst (es ! j)) = Some a' \<longrightarrow> a \<le> a')
              \<and> curr_minor u (fst (es ! i)) = Some b}))
   \<and> scan sat_never yandex_14_1 (take 42 yandex_map) (minDiff0 yandex_14_1) =
        \<lparr>d_major = 1, d_minor = 0, lastUa = Agent ''chrome'' ''40'' ''0'' ''0''\<rparr>
   \<and> yandex_map ! 42 = (''14.10'', arr2 ''chrome'' ''37'')
   \<and> curr_major yandex_14_1 ''14.10'' = Some 0 \<and> curr_minor yandex_14_1 ''14.10'' = Some 9
   \<and> resolve_version_map sat_never yandex_14_1 yandex_map = agent_of_target (arr2 ''chrome'' ''40'')
   \<and> yandex_map ! 41 = (''15.1'', arr2 ''chrome'' ''40'')
   \<and> curr_major yandex_14_1 ''15.1'' = Some 1
   \<and> (''14.2'', arr2 ''chrome'' ''32'') \<in> set yandex_map
   \<and> curr_major yandex_14_1 ''14.2'' = Some 0"
proof -
  have adopt: "\<forall>a b. curr_major u (fst e) = Some a \<and> a \<le> d_major m
          \<and> curr_minor u (fst e) = Some b \<and> b \<le> d_minor m \<longrightarrow>
      track u m e = \<lparr>d_major = a, d_minor = b, lastUa = agent_of_target (snd e)\<rparr>"
    using track_adopts[of u e _ m] by blast
  have only: "d_minor (track u m e) \<noteq> d_minor m \<or> lastUa (track u m e) \<noteq> lastUa m \<longrightarrow>
        (\<exists>a b. curr_major u (fst e) = Some a \<and> a \<le> d_major m
           \<and> curr_minor u (fst e) = Some b \<and> b \<le> d_minor m)"
    using track_changes_only_within[of u m e] by blast
  have lower: "\<forall>a b. curr_major u (fst e) = Some a \<and> a < d_major m
           \<and> curr_minor u (fst e) = Some b \<and> d_minor m < b \<longrightarrow>
        track u m e = m\<lparr>d_major := a\<rparr>"
    using track_lowers_major_only[of u e _ m] by blast
  have closed: "find (\<lambda>e. sat u (Some (fst e))) es = None \<longrightarrow>
        d_major (scan sat u es (minDiff0 u)) =
          Min (insert MAX_SAFE_INTEGER {a. \<exists>i<length es. curr_major u (fst (es ! i)) = Some a})
        \<and> d_minor (scan sat u es (minDiff0 u)) =
          Min (insert MAX_SAFE_INTEGER
            {b. \<exists>i<length es. \<exists>a. curr_major u (fst (es ! i)) = Some a
              \<and> a \<le> MAX_SAFE_INTEGER
              \<and> (\<forall>j<i. \<forall>a'. curr_major u (fst (es ! j)) = Some a' \<longrightarrow> a \<le> a')
              \<and> curr_minor u (fst (es ! i)) = Some b})"
  proof
    assume "find (\<lambda>e. sat u (Some (fst e))) es = None"
    then have "scan sat u es (minDiff0 u) = foldl (track u) (minDiff0 u) es"
      by (rule scan_no_exact)
    then show "d_major (scan sat u es (minDiff0 u)) =
          Min (insert MAX_SAFE_INTEGER {a. \<exists>i<length es. curr_major u (fst (es ! i)) = Some a})
        \<and> d_minor (scan sat u es (minDiff0 u)) =
          Min (insert MAX_SAFE_INTEGER
            {b. \<exists>i<length es. \<exists>a. curr_major u (fst (es ! i)) = Some a
              \<and> a \<le> MAX_SAFE_INTEGER
              \<and> (\<forall>j<i. \<forall>a'. curr_major u (fst (es ! j)) = Some a' \<longrightarrow> a \<le> a')
              \<and> curr_minor u (fst (es ! i)) = Some b})"
      using tracked_major_closed[of u es] tracked_minor_closed[of u es] by (simp only:)
  qed
  have resolved:
    "resolve_version_map sat_never yandex_14_1 yandex_map = agent_of_target (arr2 ''chrome'' ''40'')"
    using yandex_14_1_resolved target_chrome40 by simp
  show ?thesis
    apply (intro conjI)
    apply (rule adopt)
    apply (rule only)
    apply (rule track_major)
    apply (rule track_never_raises[THEN conjunct1])
    apply (rule track_never_raises[THEN conjunct2])
    apply (rule lower)
    apply (rule closed)
    apply (rule yandex_14_1_before)
    apply (rule yandex_14_1_entries[THEN conjunct2, THEN conjunct1])
    apply (rule yandex_14_1_diffs[THEN conjunct1])
    apply (rule yandex_14_1_diffs[THEN conjunct2, THEN conjunct1])
    apply (rule resolved)
    apply (rule yandex_14_1_entries[THEN conjunct1])
    apply (rule yandex_14_1_diffs[THEN conjunct2, THEN conjunct2, THEN conjunct1])
    apply (rule yandex_14_1_entries[THEN conjunct2, THEN conjunct2])
    apply (rule yandex_14_1_diffs[THEN conjunct2, THEN conjunct2, THEN conjunct2])
    done
qed

lemma yandex_15_9_diffs:
  "curr_major (Agent ''yandex browser'' ''15'' ''9'' ''0'') ''15.1'' = Some 0
   \<and> curr_minor (Agent ''yandex browser'' ''15'' ''9'' ''0'') ''15.1'' = Some 8"
  by code_simp

text \<open>
  Yandex Browser 14.1 and the entry \<^verbatim>\<open>"14.10"\<close>: after the 42 entries before it
  the step lowers the major-diff only; with a tracked minor-diff of 9 the same entry is
  adopted.  Yandex Browser 15.9 and the one entry \<^verbatim>\<open>"15.1"\<close>: the scan ends with
  the differences 0 and 8.
\<close>

theorem tracked_minor_never_reset_witness:
  "track yandex_14_1 \<lparr>d_major = 1, d_minor = 0, lastUa = Agent ''chrome'' ''40'' ''0'' ''0''\<rparr>
       (''14.10'', arr2 ''chrome'' ''37'')
     = \<lparr>d_major = 0, d_minor = 0, lastUa = Agent ''chrome'' ''40'' ''0'' ''0''\<rparr>
   \<and> track yandex_14_1 \<lparr>d_major = 1, d_minor = 9, lastUa = yandex_14_1\<rparr>
       (''14.10'', arr2 ''chrome'' ''37'')
     = \<lparr>d_major = 0, d_minor = 9, lastUa = Agent ''chrome'' ''37'' ''0'' ''0''\<rparr>
   \<and> d_major (scan sat_never (Agent ''yandex browser'' ''15'' ''9'' ''0'') [(''15.1'', arr2 ''b'' ''2'')]
        (minDiff0 (Agent ''yandex browser'' ''15'' ''9'' ''0''))) = 0
   \<and> d_minor (scan sat_never (Agent ''yandex browser'' ''15'' ''9'' ''0'') [(''15.1'', arr2 ''b'' ''2'')]
        (minDiff0 (Agent ''yandex browser'' ''15'' ''9'' ''0''))) = 8
   \<and> resolve_version_map sat_never yandex_14_1 yandex_map = Agent ''chrome'' ''40'' ''0'' ''0''
   \<and> curr_major yandex_14_1 ''15.1'' = Some 1
   \<and> curr_major yandex_14_1 ''14.2'' = Some 0"
proof -
  let ?e = "(''14.10'', arr2 ''chrome'' ''37'')"
  let ?m = "\<lparr>d_major = 1, d_minor = 0, lastUa = Agent ''chrome'' ''40'' ''0'' ''0''\<rparr>"
  let ?m' = "\<lparr>d_major = 1, d_minor = 9, lastUa = yandex_14_1\<rparr>"
  let ?u = "Agent ''yandex browser'' ''15'' ''9'' ''0''"
  let ?es = "[(''15.1'', arr2 ''b'' ''2'')]"
  note t = tracked_minor_never_reset[of yandex_14_1 ?e ?m sat_never "[]"]
  note t' = tracked_minor_never_reset[of yandex_14_1 ?e ?m' sat_never "[]"]
  note t'' = tracked_minor_never_reset[of ?u ?e ?m sat_never ?es]
  have a: "curr_major yandex_14_1 ''14.10'' = Some 0"
    by (rule t[THEN conjunct2, THEN conjunct2, THEN conjunct2, THEN conjunct2, THEN conjunct2, THEN conjunct2, THEN conjunct2, THEN conjunct2, THEN conjunct2, THEN conjunct1])
  have b: "curr_minor yandex_14_1 ''14.10'' = Some 9"
    by (rule t[THEN conjunct2, THEN conjunct2, THEN conjunct2, THEN conjunct2, THEN conjunct2, THEN conjunct2, THEN conjunct2, THEN conjunct2, THEN conjunct2, THEN conjunct2, THEN conjunct1])
  have lower: "track yandex_14_1 ?m ?e = ?m\<lparr>d_major := 0\<rparr>"
    using a b by (intro t[THEN conjunct2, THEN conjunct2, THEN conjunct2, THEN conjunct2, THEN conjunct2, THEN conjunct1, rule_format, of 0 9]) simp
  have adopt: "track yandex_14_1 ?m' ?e
      = \<lparr>d_major = 0, d_minor = 9, lastUa = agent_of_target (snd ?e)\<rparr>"
    using a b by (intro t'[THEN conjunct1, rule_format, of 0 9]) simp
  have none: "find (\<lambda>e. sat_never ?u (Some (fst e))) ?es = None"
    by (simp add: sat_never_def)
  note closed = t''[THEN conjunct2, THEN conjunct2, THEN conjunct2, THEN conjunct2, THEN conjunct2, THEN conjunct2, THEN conjunct1, rule_format, OF none]
  have major: "d_major (scan sat_never ?u ?es (minDiff0 ?u)) = 0"
    using closed[THEN conjunct1] yandex_15_9_diffs
    by (simp add: MAX_SAFE_INTEGER_def)
  have minor: "d_minor (scan sat_never ?u ?es (minDiff0 ?u)) = 8"
    using closed[THEN conjunct2] yandex_15_9_diffs
    by (simp add: MAX_SAFE_INTEGER_def)
  have resolved: "resolve_version_map sat_never yandex_14_1 yandex_map = Agent ''chrome'' ''40'' ''0'' ''0''"
    using t[THEN conjunct2, THEN conjunct2, THEN conjunct2, THEN conjunct2, THEN conjunct2, THEN conjunct2, THEN conjunct2, THEN conjunct2, THEN conjunct2, THEN conjunct2, THEN conjunct2, THEN conjunct1] by (simp add: target_chrome40)
  have c: "curr_major yandex_14_1 ''15.1'' = Some 1"
    by (rule t[THEN conjunct2, THEN conjunct2, THEN conjunct2, THEN conjunct2, THEN conjunct2, THEN conjunct2, THEN conjunct2, THEN conjunct2, THEN conjunct2, THEN conjunct2, THEN conjunct2, THEN conjunct2, THEN conjunct2, THEN conjunct1])
  have d: "curr_major yandex_14_1 ''14.2'' = Some 0"
    by (rule t[THEN conjunct2, THEN conjunct2, THEN conjunct2, THEN conjunct2, THEN conjunct2, THEN conjunct2, THEN conjunct2, THEN conjunct2, THEN conjunct2, THEN conjunct2, THEN conjunct2, THEN conjunct2, THEN conjunct2, THEN conjunct2, THEN conjunct2])
  show ?thesis
    using lower adopt major minor resolved c d by (simp add: target_chrome37)
qed

subsection \<open>Idempotence of \<^verbatim>\<open>UA.normalize\<close>\<close>

text \<open>Lowercasing neither makes nor breaks the canonical shape.\<close>

lemma is_word_comp_lower: "is_word \<circ> lower_char = is_word"
  by (rule ext) (simp add: is_word_lower)

lemma is_digit_comp_lower: "is_digit \<circ> lower_char = is_digit"
  by (rule ext) (simp add: is_digit_lower)

lemma opt_patch_lower: "(opt_patch (map lower_char r) = None) = (opt_patch r = None)"
  by (cases r)
    (simp_all add: opt_patch_def Let_def takeWhile_map dropWhile_map is_digit_comp_lower
      lower_char_dot)

lemma opt_minor_lower: "(opt_minor (map lower_char r) = None) = (opt_minor r = None)"
proof (cases r)
  case Nil
  then show ?thesis by (simp add: opt_minor_def)
next
  case (Cons d r1)
  then show ?thesis
    using opt_patch_lower[of "dropWhile is_digit r1"]
    by (auto simp add: opt_minor_def Let_def takeWhile_map dropWhile_map is_digit_comp_lower
        lower_char_dot split: option.splits)
qed

lemma match_shape_lower: "(match_shape (toLowerCase s) = None) = (match_shape s = None)"
proof (cases "dropWhile is_word s")
  case Nil
  then show ?thesis
    by (simp add: match_shape_def toLowerCase_def Let_def takeWhile_map dropWhile_map
        is_word_comp_lower del: dropWhile_eq_Nil_conv)
next
  case (Cons c r1)
  then show ?thesis
    using opt_minor_lower[of "dropWhile is_digit r1"]
    by (auto simp add: match_shape_def toLowerCase_def Let_def takeWhile_map dropWhile_map
        is_word_comp_lower is_digit_comp_lower lower_char_slash split: option.splits)
qed

text \<open>
  In a string of canonical shape everything after the name is a slash, digits and dots; a
  result \<open>family/version\<close> of canonical shape with a lowercase family is lowercase.
\<close>

lemma digit_not_upper: "is_digit c \<Longrightarrow> \<not> is_upper c"
  by (simp add: is_digit_def is_upper_def Let_def)

lemma no_upper_split:
  "list_all Q (takeWhile P xs) \<Longrightarrow> list_all Q (dropWhile P xs) \<Longrightarrow> list_all Q xs"
  using takeWhile_dropWhile_id[of P xs] list_all_append[of Q "takeWhile P xs" "dropWhile P xs"]
  by simp

lemma digits_no_upper: "list_all (\<lambda>c. \<not> is_upper c) (takeWhile is_digit xs)"
  by (auto simp add: list_all_iff dest!: set_takeWhileD digit_not_upper)

lemma dot_not_upper: "\<not> is_upper CHR ''.''" and slash_not_upper: "\<not> is_upper CHR ''/''"
  by (simp_all add: is_upper_def)

lemma opt_patch_no_upper: "opt_patch r \<noteq> None \<Longrightarrow> list_all (\<lambda>c. \<not> is_upper c) r"
proof (cases r)
  case Nil
  then show ?thesis by simp
next
  case (Cons e r1)
  assume "opt_patch r \<noteq> None"
  with Cons have e: "e = CHR ''.''" and d: "dropWhile is_digit r1 = []"
    by (auto simp add: opt_patch_def Let_def split: if_splits)
  have "list_all (\<lambda>c. \<not> is_upper c) r1"
    by (rule no_upper_split[where P = is_digit]) (simp_all add: digits_no_upper d)
  with Cons e show ?thesis by (simp add: dot_not_upper)
qed

lemma opt_minor_no_upper: "opt_minor r \<noteq> None \<Longrightarrow> list_all (\<lambda>c. \<not> is_upper c) r"
proof (cases r)
  case Nil
  then show ?thesis by simp
next
  case (Cons e r1)
  assume "opt_minor r \<noteq> None"
  with Cons have e: "e = CHR ''.''" and d: "opt_patch (dropWhile is_digit r1) \<noteq> None"
    by (auto simp add: opt_minor_def Let_def split: if_splits option.splits)
  have "list_all (\<lambda>c. \<not> is_upper c) r1"
    by (rule no_upper_split[where P = is_digit]) (simp_all add: digits_no_upper d opt_patch_no_upper)
  with Cons e show ?thesis by (simp add: dot_not_upper)
qed

lemma shape_rest_no_upper:
  "match_shape s \<noteq> None \<Longrightarrow> list_all (\<lambda>c. \<not> is_upper c) (dropWhile is_word s)"
proof (cases "dropWhile is_word s")
  case Nil
  then show ?thesis by (simp del: dropWhile_eq_Nil_conv)
next
  case (Cons c r1)
  assume "match_shape s \<noteq> None"
  with Cons have c: "c = CHR ''/''" and d: "opt_minor (dropWhile is_digit r1) \<noteq> None"
    by (auto simp add: match_shape_def Let_def split: if_splits option.splits)
  have "list_all (\<lambda>c. \<not> is_upper c) r1"
    by (rule no_upper_split[where P = is_digit]) (simp_all add: digits_no_upper d opt_minor_no_upper)
  with Cons c show ?thesis by (simp add: slash_not_upper)
qed

lemma slash_not_word: "\<not> is_word CHR ''/''"
  by (simp add: is_word_def)

lemma takeWhile_word_slash: "takeWhile is_word (f @ CHR ''/'' # v) = takeWhile is_word f"
proof (cases "list_all is_word f")
  case True
  then have a: "takeWhile is_word f = f" by (simp add: list_all_iff)
  from True have "takeWhile is_word (f @ CHR ''/'' # v) = f @ takeWhile is_word (CHR ''/'' # v)"
    by (simp add: list_all_iff takeWhile_append2)
  also have "\<dots> = f" by (simp add: slash_not_word)
  finally show ?thesis unfolding a .
next
  case False
  then show ?thesis by (auto simp add: list_all_iff takeWhile_append1)
qed

lemma lowercase_iff: "lowercase s = list_all (\<lambda>c. lower_char c = c) s"
  by (induction s) (auto simp add: lowercase_def toLowerCase_def)

lemma canonical_result_lowercase:
  assumes f: "lowercase f" and m: "match_shape (f @ ''/'' @ v) \<noteq> None"
  shows "toLowerCase (f @ ''/'' @ v) = f @ ''/'' @ v"
proof -
  let ?r = "f @ ''/'' @ v"
  have "list_all (\<lambda>c. lower_char c = c) (takeWhile is_word ?r)"
    using f by (auto simp add: takeWhile_word_slash lowercase_iff list_all_iff dest: set_takeWhileD)
  moreover have "list_all (\<lambda>c. lower_char c = c) (dropWhile is_word ?r)"
    using shape_rest_no_upper[OF m] by (auto simp add: list_all_iff lower_char_fixed)
  ultimately have "list_all (\<lambda>c. lower_char c = c) ?r"
    by (rule no_upper_split)
  then have "lowercase ?r" by (simp only: lowercase_iff)
  then show ?thesis by (simp add: lowercase_def)
qed


lemma UA_normalize_shape:
  "match_shape s \<noteq> None \<Longrightarrow> UA_normalize sat parse c s = (toLowerCase s, c)"
  by (simp add: UA_normalize_def)

lemma UA_normalize_twice_shape:
  "match_shape s \<noteq> None \<Longrightarrow>
   fst (UA_normalize sat parse c2 (fst (UA_normalize sat parse c s))) = fst (UA_normalize sat parse c s)"
  by (simp add: UA_normalize_shape match_shape_lower toLowerCase_idem)

lemma short_shape_None: "match_shape s = None \<Longrightarrow> short_shape s = None"
  by (simp add: short_shape_def)

lemma UA_normalize_lowercase:
  assumes c: "cache_ok c" and m: "match_shape (fst (UA_normalize sat parse c s)) \<noteq> None"
  shows "toLowerCase (fst (UA_normalize sat parse c s)) = fst (UA_normalize sat parse c s)"
proof (cases "match_shape s = None")
  case False
  then show ?thesis by (simp add: UA_normalize_shape toLowerCase_idem)
next
  case True
  have r: "fst (UA_normalize sat parse c s) =
      family (ua (UA sat parse c s)) @ ''/'' @ getVersion (ua (UA sat parse c s))"
    using True by (simp add: UA_normalize_def Let_def getFamily_def)
  have "match_shape (take MAX_UA_LEN s) = None \<or> \<not> length (take MAX_UA_LEN s) < 22"
  proof (cases "length s \<le> MAX_UA_LEN")
    case True
    with \<open>match_shape s = None\<close> show ?thesis by simp
  next
    case False
    then show ?thesis by (simp add: MAX_UA_LEN_def)
  qed
  then have "short_shape (take MAX_UA_LEN s) = None"
    by (auto simp add: short_shape_def)
  with c have "agent_ok (ua (UA sat parse c s))" by (rule UA_agent_ok)
  then have "lowercase (family (ua (UA sat parse c s)))" by (simp add: agent_ok_def)
  then show ?thesis
    using m unfolding r by (rule canonical_result_lowercase)
qed

text \<open>
  C8 as stated fails when the family of the result is not made of word characters.  With a
  parser that recognises one UC Browser string and nothing else, and a range test for which
  version 10 satisfies the expression \<^verbatim>\<open>"10"\<close>: the alias table maps UC Browser 10
  to the family \<^verbatim>\<open>"uc browser"\<close>, so \<^verbatim>\<open>normalize\<close> gives
  \<^verbatim>\<open>"uc browser/0.0.0"\<close>; this string has not the canonical shape, is classified
  as a raw string, and \<^verbatim>\<open>normalize\<close> of it is \<^verbatim>\<open>"other/0.0.0"\<close>.
\<close>

theorem normalize_not_idempotent:
  "fst (UA_normalize sat_major parse_uc [] ''UCBrowser/10.0.0.488'') = ''uc browser/0.0.0''
   \<and> fst (UA_normalize sat_major parse_uc
            (snd (UA_normalize sat_major parse_uc [] ''UCBrowser/10.0.0.488''))
            (fst (UA_normalize sat_major parse_uc [] ''UCBrowser/10.0.0.488''))) = ''other/0.0.0''"
  by code_simp

text \<open>
  C8, amended.  \<^verbatim>\<open>normalize(normalize(s)) == normalize(s)\<close> for every string
  \<open>s\<close> of canonical shape, whatever the caches of the two calls are; and, in a process that
  has classified any strings \<open>ss\<close> before, for every string \<open>s\<close> whose
  \<^verbatim>\<open>normalize(s)\<close> has the canonical shape.
\<close>

theorem normalize_idempotent_on_canonical_results:
  "(match_shape s \<noteq> None \<longrightarrow>
      fst (UA_normalize sat parse c2 (fst (UA_normalize sat parse c s))) = fst (UA_normalize sat parse c s))
   \<and> (match_shape (fst (UA_normalize sat parse (cache_after_all sat parse ss) s)) \<noteq> None \<longrightarrow>
      fst (UA_normalize sat parse c2 (fst (UA_normalize sat parse (cache_after_all sat parse ss) s)))
        = fst (UA_normalize sat parse (cache_after_all sat parse ss) s))"
proof (intro conjI impI)
  assume "match_shape s \<noteq> None"
  then show "fst (UA_normalize sat parse c2 (fst (UA_normalize sat parse c s))) = fst (UA_normalize sat parse c s)"
    by (rule UA_normalize_twice_shape)
next
  let ?r = "fst (UA_normalize sat parse (cache_after_all sat parse ss) s)"
  assume m: "match_shape ?r \<noteq> None"
  have "toLowerCase ?r = ?r"
    using cache_after_all_ok m by (rule UA_normalize_lowercase)
  with m show "fst (UA_normalize sat parse c2 ?r) = ?r"
    by (simp add: UA_normalize_shape)
qed

text \<open>
  A string of canonical shape, and a string the parser does not recognise, whose result
  \<^verbatim>\<open>"other/0.0.0"\<close> has the canonical shape.
\<close>

lemma normalize_unrecognised:
  "UA_normalize sat_major parse_nothing [] ''Mozilla/5.0 Foo'' = (''other/0.0.0'', [(''Mozilla/5.0 Foo'', ''other'', ''0'', Some ''0'', Some ''0'')])"
  by code_simp

lemma match_shape_other: "match_shape ''other/0.0.0'' \<noteq> None"
  by code_simp

lemma cache_after_all_Nil: "cache_after_all sat parse [] = []"
  by (simp add: cache_after_all_def)

theorem normalize_idempotent_on_canonical_results_witness:
  "match_shape ''Chrome/50'' \<noteq> None
   \<and> fst (UA_normalize sat_major parse_nothing [] (fst (UA_normalize sat_major parse_nothing [] ''Chrome/50'')))
       = fst (UA_normalize sat_major parse_nothing [] ''Chrome/50'')
   \<and> match_shape (fst (UA_normalize sat_major parse_nothing [] ''Mozilla/5.0 Foo'')) \<noteq> None
   \<and> fst (UA_normalize sat_major parse_nothing
        (snd (UA_normalize sat_major parse_nothing [] ''Mozilla/5.0 Foo''))
        (fst (UA_normalize sat_major parse_nothing [] ''Mozilla/5.0 Foo'')))
       = fst (UA_normalize sat_major parse_nothing [] ''Mozilla/5.0 Foo'')"
  using normalize_idempotent_on_canonical_results[of "''Chrome/50''" sat_major parse_nothing "[]" "[]" "[]"]
    normalize_idempotent_on_canonical_results[of "''Mozilla/5.0 Foo''" sat_major parse_nothing
      "snd (UA_normalize sat_major parse_nothing [] ''Mozilla/5.0 Foo'')" "[]" "[]"]
  by (simp add: match_shape_Chrome50 cache_after_all_Nil normalize_unrecognised match_shape_other)

end
